theory Spec2Isabelle
  imports Main
begin

section \<open>Values decoded from JSON\<close>

text \<open>
  \<^verbatim>\<open>json.loads\<close> returns \<^verbatim>\<open>None\<close>, a \<^verbatim>\<open>bool\<close>, an \<^verbatim>\<open>int\<close>, a \<^verbatim>\<open>float\<close>, a
  \<^verbatim>\<open>str\<close>, a \<^verbatim>\<open>list\<close> or a \<^verbatim>\<open>dict\<close> with \<^verbatim>\<open>str\<close> keys. The walk only asks a
  float whether it is zero, so a float is its mantissa and exponent, an infinity or
  a NaN. A dict is an association list in insertion order; Python keeps every key
  once, and a lookup reads the first binding of the key. A string is a list of
  characters: the program concatenates strings, compares them and tests them for
  emptiness, and nothing else.
\<close>

datatype pyfloat = Finite int int | Infinite bool | NaN

datatype json =
    JNull
  | JBool bool
  | JInt int
  | JFloat pyfloat
  | JStr string
  | JList "json list"
  | JDict "(string \<times> json) list"

datatype error =
    KeyError string
  | TypeError
  | AttributeError
  | JSONDecodeError
  | OSError
  | RecursionError
  | ExecutableNotFound

section \<open>The Python operations the program applies to these values\<close>

text \<open>\<^verbatim>\<open>d.get(key, default)\<close>: only a dict has the method.\<close>

definition dict_get :: "json \<Rightarrow> string \<Rightarrow> json \<Rightarrow> error + json" where
  "dict_get d key dflt =
     (case d of
        JDict kvs \<Rightarrow> Inr (case map_of kvs key of Some v \<Rightarrow> v | None \<Rightarrow> dflt)
      | _ \<Rightarrow> Inl AttributeError)"

text \<open>
  \<^verbatim>\<open>d[key]\<close> with a \<^verbatim>\<open>str\<close> key: a dict without the key raises KeyError; a list
  or a string wants an integer index, and the other values cannot be subscripted.
\<close>

definition subscript :: "json \<Rightarrow> string \<Rightarrow> error + json" where
  "subscript d key =
     (case d of
        JDict kvs \<Rightarrow> (case map_of kvs key of Some v \<Rightarrow> Inr v | None \<Rightarrow> Inl (KeyError key))
      | _ \<Rightarrow> Inl TypeError)"

text \<open>
  \<^verbatim>\<open>for x in v\<close>: a list gives its elements, a dict its keys, a string its
  characters as strings of length one; nothing else is iterable.
\<close>

definition iterate :: "json \<Rightarrow> error + json list" where
  "iterate v =
     (case v of
        JList xs \<Rightarrow> Inr xs
      | JDict kvs \<Rightarrow> Inr (map (\<lambda>kv. JStr (fst kv)) kvs)
      | JStr s \<Rightarrow> Inr (map (\<lambda>c. JStr [c]) s)
      | _ \<Rightarrow> Inl TypeError)"

text \<open>The truth value \<^verbatim>\<open>if v:\<close> tests.\<close>

fun truthy :: "json \<Rightarrow> bool" where
  "truthy JNull = False"
| "truthy (JBool b) = b"
| "truthy (JInt i) = (i \<noteq> 0)"
| "truthy (JFloat (Finite m e)) = (m \<noteq> 0)"
| "truthy (JFloat (Infinite s)) = True"
| "truthy (JFloat NaN) = True"
| "truthy (JStr s) = (s \<noteq> [])"
| "truthy (JList xs) = (xs \<noteq> [])"
| "truthy (JDict kvs) = (kvs \<noteq> [])"

text \<open>
  A replacement field of an f-string: a \<^verbatim>\<open>str\<close> is inserted as it is, any other
  value through Python's built-in \<^verbatim>\<open>str()\<close>, which is not part of the program
  and is the parameter \<open>py_str\<close> of everything below.
\<close>

definition format_value :: "(json \<Rightarrow> string) \<Rightarrow> json \<Rightarrow> string" where
  "format_value py_str v = (case v of JStr s \<Rightarrow> s | _ \<Rightarrow> py_str v)"

section \<open>The graph library, as the calls it receives\<close>

text \<open>
  \<^verbatim>\<open>Digraph(format=...)\<close> starts an empty graph; \<^verbatim>\<open>node\<close> and \<^verbatim>\<open>edge\<close> append a
  statement to its body with the arguments as they were passed; \<^verbatim>\<open>render\<close> hands
  the graph over for drawing, which is recorded as the rendering requested. What
  the library and the Graphviz program do with these calls is outside the program.
\<close>

datatype stmt = Node json string | Edge json json

record digraph =
  format :: string
  body :: "stmt list"

record rendering =
  graph :: digraph
  filename :: string
  view :: bool

definition Digraph :: "string \<Rightarrow> digraph" where
  "Digraph f = \<lparr>format = f, body = []\<rparr>"

definition node :: "json \<Rightarrow> string \<Rightarrow> digraph \<Rightarrow> digraph" where
  "node name label dot = dot\<lparr>body := body dot @ [Node name label]\<rparr>"

definition edge :: "json \<Rightarrow> json \<Rightarrow> digraph \<Rightarrow> digraph" where
  "edge tail_name head_name dot = dot\<lparr>body := body dot @ [Edge tail_name head_name]\<rparr>"

definition render :: "string \<Rightarrow> bool \<Rightarrow> digraph \<Rightarrow> rendering" where
  "render name v dot = \<lparr>graph = dot, filename = name, view = v\<rparr>"

section \<open>The program\<close>

subsection \<open>get_pipdeptree_output\<close>

text \<open>
  \<^verbatim>\<open>subprocess.run(args, capture_output=...)\<close> either fails to start the program
  (an exception) or returns the completed process with its return code and
  captured streams; it is the parameter \<open>run\<close>, and \<^verbatim>\<open>json.loads\<close> is the
  parameter \<open>loads\<close>.
\<close>

record completed_process =
  returncode :: int
  stdout :: string
  stderr :: string

definition get_pipdeptree_output ::
  "(string list \<Rightarrow> bool \<Rightarrow> error + completed_process) \<Rightarrow> (string \<Rightarrow> error + json) \<Rightarrow> error + json"
where
  "get_pipdeptree_output run loads =
     (case run [''pipdeptree'', ''--json''] True of
        Inl e \<Rightarrow> Inl e
      | Inr result \<Rightarrow> loads (stdout result))"

subsection \<open>create_dependency_graph\<close>

text \<open>
  \<open>add_nodes_edges\<close> is the nested function of the source, with the graph it
  mutates passed in and returned; \<open>parent\<close> is \<open>JNull\<close> for Python's \<^verbatim>\<open>None\<close>.
  \<open>add_each\<close> is the \<^verbatim>\<open>for\<close> loop that calls it on every element in turn; an
  exception ends the loop and the walk. The interpreter's recursion limit is
  outside the model: a tree of any depth is walked to its end.
\<close>

lemma size_map_of:
  "map_of kvs key = Some v \<Longrightarrow> size v < Suc (size_list (size_prod (\<lambda>_. 0) size) kvs)"
  by (induction kvs) (auto split: if_splits)

lemma sum_size_le_size_list: "sum_list (map size xs) \<le> size_list size (xs :: json list)"
  by (induction xs) auto

lemma sum_size_keys: "subs = map (\<lambda>kv. JStr (fst kv)) kvs \<Longrightarrow> sum_list (map size subs) = 0"
  by (induction kvs arbitrary: subs) auto

lemma sum_size_chars: "subs = map (\<lambda>c. JStr [c]) s \<Longrightarrow> sum_list (map size subs) = 0"
  by (induction s arbitrary: subs) auto

lemma size_iterate:
  assumes "dict_get dep key (JList []) = Inr deps" and "iterate deps = Inr subs"
  shows "sum_list (map size subs) < size dep"
proof -
  from assms(1) obtain kvs where dep: "dep = JDict kvs"
    by (cases dep) (auto simp: dict_get_def)
  show ?thesis
  proof (cases "map_of kvs key")
    case None
    with assms dep show ?thesis by (auto simp: dict_get_def iterate_def)
  next
    case (Some v)
    with assms(1) dep have v: "deps = v" by (simp add: dict_get_def)
    from Some have lt: "size v < size dep" unfolding dep using size_map_of by fastforce
    show ?thesis
    proof (cases v)
      case (JList xs)
      with assms(2) v have "subs = xs" by (simp add: iterate_def)
      with JList lt sum_size_le_size_list [of xs] show ?thesis by simp
    next
      case (JDict kvs')
      with assms(2) v have "subs = map (\<lambda>kv. JStr (fst kv)) kvs'" by (simp add: iterate_def)
      then have "sum_list (map size subs) = 0" by (rule sum_size_keys)
      moreover have "0 < size dep" by (simp add: dep)
      ultimately show ?thesis by linarith
    next
      case (JStr s)
      with assms(2) v have "subs = map (\<lambda>c. JStr [c]) s" by (simp add: iterate_def)
      then have "sum_list (map size subs) = 0" by (rule sum_size_chars)
      moreover have "0 < size dep" by (simp add: dep)
      ultimately show ?thesis by linarith
    qed (use assms(2) v in \<open>auto simp: iterate_def\<close>)
  qed
qed

function add_nodes_edges :: "(json \<Rightarrow> string) \<Rightarrow> json \<Rightarrow> json \<Rightarrow> digraph \<Rightarrow> error + digraph"
  and add_each :: "(json \<Rightarrow> string) \<Rightarrow> json list \<Rightarrow> json \<Rightarrow> digraph \<Rightarrow> error + digraph"
where
  "add_nodes_edges py_str dep parent dot =
     (case dict_get dep ''package'' dep of
        Inl e \<Rightarrow> Inl e
      | Inr data \<Rightarrow>
     (case subscript data ''package_name'' of
        Inl e \<Rightarrow> Inl e
      | Inr package_name \<Rightarrow>
     (case subscript data ''installed_version'' of
        Inl e \<Rightarrow> Inl e
      | Inr package_version \<Rightarrow>
     (let node_label = format_value py_str package_name @ [CHR 0x0A]
                         @ format_value py_str package_version;
          dot1 = node package_name node_label dot;
          dot2 = (if truthy parent then edge parent package_name dot1 else dot1)
      in case dict_get dep ''dependencies'' (JList []) of
           Inl e \<Rightarrow> Inl e
         | Inr deps \<Rightarrow>
        (case iterate deps of
           Inl e \<Rightarrow> Inl e
         | Inr sub_deps \<Rightarrow> add_each py_str sub_deps package_name dot2)))))"
| "add_each py_str [] parent dot = Inr dot"
| "add_each py_str (dep # rest) parent dot =
     (case add_nodes_edges py_str dep parent dot of
        Inl e \<Rightarrow> Inl e
      | Inr dot' \<Rightarrow> add_each py_str rest parent dot')"
  by pat_completeness auto
termination
proof (relation "inv_image (less_than <*lex*> less_than)
    (\<lambda>call. case call of
       Inl (py_str, dep, parent, dot) \<Rightarrow> (size dep, 0)
     | Inr (py_str, deps, parent, dot) \<Rightarrow> (sum_list (map size deps), length deps))")
  show "wf (inv_image (less_than <*lex*> less_than)
    (\<lambda>call. case call of
       Inl (py_str :: json \<Rightarrow> string, dep, parent :: json, dot :: digraph) \<Rightarrow> (size dep, 0::nat)
     | Inr (py_str :: json \<Rightarrow> string, deps, parent :: json, dot :: digraph) \<Rightarrow>
         (sum_list (map size deps), length deps)))"
    by (intro wf_inv_image wf_lex_prod wf_less_than)
qed (auto dest: size_iterate)

definition create_dependency_graph :: "(json \<Rightarrow> string) \<Rightarrow> json \<Rightarrow> error + rendering" where
  "create_dependency_graph py_str dependencies =
     (let dot = Digraph ''png'' in
      case iterate dependencies of
        Inl e \<Rightarrow> Inl e
      | Inr deps \<Rightarrow>
     (case add_each py_str deps JNull dot of
        Inl e \<Rightarrow> Inl e
      | Inr dot' \<Rightarrow> Inr (render ''dependencies'' False dot')))"

subsection \<open>main\<close>

definition main ::
  "(string list \<Rightarrow> bool \<Rightarrow> error + completed_process) \<Rightarrow> (string \<Rightarrow> error + json) \<Rightarrow>
   (json \<Rightarrow> string) \<Rightarrow> error + rendering"
where
  "main run loads py_str =
     (case get_pipdeptree_output run loads of
        Inl e \<Rightarrow> Inl e
      | Inr dependencies \<Rightarrow> create_dependency_graph py_str dependencies)"

section \<open>The tree the walk reads, and the graph it leaves\<close>

text \<open>
  What the walk reads of a node: a field of its data dictionary (the value under
  \<^verbatim>\<open>package\<close> when the node has that key, the node itself otherwise), and the
  elements the loop over \<^verbatim>\<open>dep.get("dependencies", [])\<close> runs through, which are
  the node's children. \<open>None\<close> and \<open>[]\<close> stand for a read that raises.
\<close>

definition node_field :: "json \<Rightarrow> string \<Rightarrow> json option" where
  "node_field dep key =
     (case dict_get dep ''package'' dep of
        Inl e \<Rightarrow> None
      | Inr data \<Rightarrow> (case subscript data key of Inl e \<Rightarrow> None | Inr v \<Rightarrow> Some v))"

definition package_name_of :: "json \<Rightarrow> json option" where
  "package_name_of dep = node_field dep ''package_name''"

definition installed_version_of :: "json \<Rightarrow> json option" where
  "installed_version_of dep = node_field dep ''installed_version''"

definition sub_deps :: "json \<Rightarrow> json list" where
  "sub_deps dep =
     (case dict_get dep ''dependencies'' (JList []) of
        Inl e \<Rightarrow> []
      | Inr deps \<Rightarrow> (case iterate deps of Inl e \<Rightarrow> [] | Inr subs \<Rightarrow> subs))"

definition deps_iterable :: "json \<Rightarrow> bool" where
  "deps_iterable dep =
     (case dict_get dep ''dependencies'' (JList []) of
        Inl e \<Rightarrow> False
      | Inr deps \<Rightarrow> (case iterate deps of Inl e \<Rightarrow> False | Inr subs \<Rightarrow> True))"


lemma sub_deps_cases:
  assumes "sub_deps dep \<noteq> []"
  obtains deps where "dict_get dep ''dependencies'' (JList []) = Inr deps"
    and "iterate deps = Inr (sub_deps dep)"
proof (cases "dict_get dep ''dependencies'' (JList [])")
  case (Inl e)
  with assms show ?thesis by (simp add: sub_deps_def)
next
  case (Inr deps)
  show ?thesis
  proof (cases "iterate deps")
    case (Inl e)
    with Inr assms show ?thesis by (simp add: sub_deps_def)
  next
    case iter: (Inr subs)
    with Inr have "sub_deps dep = subs" by (simp add: sub_deps_def)
    with Inr iter that show ?thesis by simp
  qed
qed

lemma size_sub_deps:
  assumes "sub \<in> set (sub_deps dep)"
  shows "size sub < size dep"
proof -
  from assms have "sub_deps dep \<noteq> []" by auto
  then obtain deps where d: "dict_get dep ''dependencies'' (JList []) = Inr deps"
    and i: "iterate deps = Inr (sub_deps dep)"
    by (rule sub_deps_cases)
  from assms have "size sub \<le> sum_list (map size (sub_deps dep))"
    by (simp add: member_le_sum_list)
  with size_iterate [OF d i] show ?thesis by simp
qed

text \<open>The nodes of the tree below a node, parents before children, left to right.\<close>

function tree_nodes :: "json \<Rightarrow> json list" where
  "tree_nodes dep = dep # concat (map tree_nodes (sub_deps dep))"
  by pat_completeness auto
termination
  by (relation "measure size") (auto dest: size_sub_deps)

text \<open>Its parent-child pairs, in the order the walk meets them.\<close>

function tree_edges :: "json \<Rightarrow> (json \<times> json) list" where
  "tree_edges dep = concat (map (\<lambda>sub. (dep, sub) # tree_edges sub) (sub_deps dep))"
  by pat_completeness auto
termination
  by (relation "measure size") (auto dest: size_sub_deps)

text \<open>
  A node the walk gets through: both fields can be read, the dependencies can be
  iterated, and the same holds of every child.
\<close>

function walkable :: "json \<Rightarrow> bool" where
  "walkable dep =
     (package_name_of dep \<noteq> None \<and> installed_version_of dep \<noteq> None \<and> deps_iterable dep \<and>
      list_all walkable (sub_deps dep))"
  by pat_completeness auto
termination
  by (relation "measure size") (auto dest: size_sub_deps)


text \<open>The label the walk builds from a name and a version.\<close>

definition node_label :: "(json \<Rightarrow> string) \<Rightarrow> json \<Rightarrow> json \<Rightarrow> string" where
  "node_label py_str name version =
     format_value py_str name @ [CHR 0x0A] @ format_value py_str version"

text \<open>The node statement a tree node stands for, when both fields can be read.\<close>

definition node_entry :: "(json \<Rightarrow> string) \<Rightarrow> json \<Rightarrow> (json \<times> string) option" where
  "node_entry py_str dep =
     (case package_name_of dep of
        None \<Rightarrow> None
      | Some name \<Rightarrow>
          (case installed_version_of dep of
             None \<Rightarrow> None
           | Some version \<Rightarrow> Some (name, node_label py_str name version)))"

text \<open>The statements of a graph body, by kind.\<close>

fun node_stmts :: "stmt list \<Rightarrow> (json \<times> string) list" where
  "node_stmts [] = []"
| "node_stmts (Node name label # ss) = (name, label) # node_stmts ss"
| "node_stmts (Edge t h # ss) = node_stmts ss"

fun edge_stmts :: "stmt list \<Rightarrow> (json \<times> json) list" where
  "edge_stmts [] = []"
| "edge_stmts (Node name label # ss) = edge_stmts ss"
| "edge_stmts (Edge t h # ss) = (t, h) # edge_stmts ss"

definition node_ids :: "digraph \<Rightarrow> json set" where
  "node_ids g = fst ` set (node_stmts (body g))"

definition edges :: "digraph \<Rightarrow> (json \<times> json) set" where
  "edges g = set (edge_stmts (body g))"

text \<open>The statements a complete walk of a node appends.\<close>

function emitted :: "(json \<Rightarrow> string) \<Rightarrow> json \<Rightarrow> json \<Rightarrow> stmt list" where
  "emitted py_str dep parent =
     (case package_name_of dep of
        None \<Rightarrow> []
      | Some name \<Rightarrow>
          (case installed_version_of dep of
             None \<Rightarrow> []
           | Some version \<Rightarrow>
               Node name (node_label py_str name version)
                 # (if truthy parent then [Edge parent name] else [])
                 @ concat (map (\<lambda>sub. emitted py_str sub name) (sub_deps dep))))"
  by pat_completeness auto
termination
  by (relation "measure (\<lambda>(py_str, dep, parent). size dep)") (auto dest: size_sub_deps)

text \<open>
  The nodes and the parent-child pairs of a list of trees, and the edges a list of
  parent-child pairs stands for: an edge from parent name to child name wherever
  the parent's name is truthy.
\<close>

definition forest_nodes :: "json list \<Rightarrow> json list" where
  "forest_nodes deps = concat (map tree_nodes deps)"

definition forest_edges :: "json list \<Rightarrow> (json \<times> json) list" where
  "forest_edges deps = concat (map tree_edges deps)"

definition named_edges :: "(json \<times> json) list \<Rightarrow> (json \<times> json) set" where
  "named_edges pairs =
     {(t, h). \<exists>(p, c) \<in> set pairs.
        package_name_of p = Some t \<and> package_name_of c = Some h \<and> truthy t}"

declare tree_nodes.simps [simp del]
declare tree_edges.simps [simp del]
declare walkable.simps [simp del]
declare emitted.simps [simp del]

declare add_nodes_edges.simps [simp del]

section \<open>The program under a runtime\<close>

text \<open>
  What the program calls can raise too, and the interpreter bounds the depth of
  the recursion. A runtime says, for each call the walk makes outside the program,
  whether it raises: Python's \<^verbatim>\<open>str()\<close> on a value that is not a string,
  \<^verbatim>\<open>dot.node\<close> and \<^verbatim>\<open>dot.edge\<close> on their arguments, \<^verbatim>\<open>dot.render\<close> on the
  rendering requested. A call that does not raise does what the recorded call
  does.
\<close>

record runtime =
  str_of :: "json \<Rightarrow> error + string"
  node_raises :: "json \<Rightarrow> string \<Rightarrow> error option"
  edge_raises :: "json \<Rightarrow> json \<Rightarrow> error option"
  render_raises :: "rendering \<Rightarrow> error option"

definition format_value_rt :: "runtime \<Rightarrow> json \<Rightarrow> error + string" where
  "format_value_rt rt v = (case v of JStr s \<Rightarrow> Inr s | _ \<Rightarrow> str_of rt v)"

definition node_rt :: "runtime \<Rightarrow> json \<Rightarrow> string \<Rightarrow> digraph \<Rightarrow> error + digraph" where
  "node_rt rt name label dot =
     (case node_raises rt name label of Some e \<Rightarrow> Inl e | None \<Rightarrow> Inr (node name label dot))"

definition edge_rt :: "runtime \<Rightarrow> json \<Rightarrow> json \<Rightarrow> digraph \<Rightarrow> error + digraph" where
  "edge_rt rt tail_name head_name dot =
     (case edge_raises rt tail_name head_name of
        Some e \<Rightarrow> Inl e
      | None \<Rightarrow> Inr (edge tail_name head_name dot))"

definition render_rt :: "runtime \<Rightarrow> string \<Rightarrow> bool \<Rightarrow> digraph \<Rightarrow> error + rendering" where
  "render_rt rt name v dot =
     (case render_raises rt (render name v dot) of
        Some e \<Rightarrow> Inl e
      | None \<Rightarrow> Inr (render name v dot))"

text \<open>
  The walk under a runtime, with \<open>frames\<close> the number of nested calls of
  \<open>add_nodes_edges\<close> the recursion limit leaves room for, the calls they make
  included: a call beyond it raises RecursionError. The statements and their order
  are those of \<open>add_nodes_edges\<close> above; \<open>create_dependency_graph_rt\<close> is
  \<open>create_dependency_graph\<close> with this walk and a \<^verbatim>\<open>render\<close> that may raise.
\<close>

fun add_nodes_edges_rt :: "runtime \<Rightarrow> nat \<Rightarrow> json \<Rightarrow> json \<Rightarrow> digraph \<Rightarrow> error + digraph"
  and add_each_rt :: "runtime \<Rightarrow> nat \<Rightarrow> json list \<Rightarrow> json \<Rightarrow> digraph \<Rightarrow> error + digraph"
where
  "add_nodes_edges_rt rt 0 dep parent dot = Inl RecursionError"
| "add_nodes_edges_rt rt (Suc frames) dep parent dot =
     (case dict_get dep ''package'' dep of
        Inl e \<Rightarrow> Inl e
      | Inr data \<Rightarrow>
     (case subscript data ''package_name'' of
        Inl e \<Rightarrow> Inl e
      | Inr package_name \<Rightarrow>
     (case subscript data ''installed_version'' of
        Inl e \<Rightarrow> Inl e
      | Inr package_version \<Rightarrow>
     (case format_value_rt rt package_name of
        Inl e \<Rightarrow> Inl e
      | Inr name_text \<Rightarrow>
     (case format_value_rt rt package_version of
        Inl e \<Rightarrow> Inl e
      | Inr version_text \<Rightarrow>
     (case node_rt rt package_name (name_text @ [CHR 0x0A] @ version_text) dot of
        Inl e \<Rightarrow> Inl e
      | Inr dot1 \<Rightarrow>
     (case (if truthy parent then edge_rt rt parent package_name dot1 else Inr dot1) of
        Inl e \<Rightarrow> Inl e
      | Inr dot2 \<Rightarrow>
     (case dict_get dep ''dependencies'' (JList []) of
        Inl e \<Rightarrow> Inl e
      | Inr deps \<Rightarrow>
     (case iterate deps of
        Inl e \<Rightarrow> Inl e
      | Inr subs \<Rightarrow> add_each_rt rt frames subs package_name dot2)))))))))"
| "add_each_rt rt frames [] parent dot = Inr dot"
| "add_each_rt rt frames (dep # rest) parent dot =
     (case add_nodes_edges_rt rt frames dep parent dot of
        Inl e \<Rightarrow> Inl e
      | Inr dot' \<Rightarrow> add_each_rt rt frames rest parent dot')"

definition create_dependency_graph_rt :: "runtime \<Rightarrow> nat \<Rightarrow> json \<Rightarrow> error + rendering" where
  "create_dependency_graph_rt rt frames dependencies =
     (let dot = Digraph ''png'' in
      case iterate dependencies of
        Inl e \<Rightarrow> Inl e
      | Inr deps \<Rightarrow>
     (case add_each_rt rt frames deps JNull dot of
        Inl e \<Rightarrow> Inl e
      | Inr dot' \<Rightarrow> render_rt rt ''dependencies'' False dot'))"




fun is_str :: "json \<Rightarrow> bool" where
  "is_str (JStr s) = True"
| "is_str v = False"


section \<open>Sample inputs\<close>

text \<open>
  Two entries in the shape the dependency tool prints: each top-level entry keeps
  the package under \<^verbatim>\<open>package\<close> and lists its requirements, which are flat
  dictionaries, under \<^verbatim>\<open>dependencies\<close>.
\<close>

definition dep_six :: json where
  "dep_six = JDict [(''key'', JStr ''six''), (''package_name'', JStr ''six''),
     (''installed_version'', JStr ''1.16.0''), (''required_version'', JStr ''>=1.5'')]"

definition pkg_dateutil :: json where
  "pkg_dateutil = JDict
     [(''package'', JDict [(''key'', JStr ''python-dateutil''),
        (''package_name'', JStr ''python-dateutil''), (''installed_version'', JStr ''2.9.0'')]),
      (''dependencies'', JList [dep_six])]"

definition pkg_six :: json where
  "pkg_six = JDict
     [(''package'', JDict [(''key'', JStr ''six''), (''package_name'', JStr ''six''),
        (''installed_version'', JStr ''1.16.0'')]),
      (''dependencies'', JList [])]"

definition example_rendering :: rendering where
  "example_rendering =
     \<lparr>graph = \<lparr>format = ''png'',
        body = [Node (JStr ''python-dateutil'') ''python-dateutil\<newline>2.9.0'',
                Node (JStr ''six'') ''six\<newline>1.16.0'',
                Edge (JStr ''python-dateutil'') (JStr ''six''),
                Node (JStr ''six'') ''six\<newline>1.16.0'']\<rparr>,
      filename = ''dependencies'', view = False\<rparr>"

text \<open>A node with an empty package name and one requirement.\<close>

definition unnamed_parent :: json where
  "unnamed_parent = JDict
     [(''package_name'', JStr ''''), (''installed_version'', JStr ''1.0''),
      (''dependencies'', JList [dep_six])]"

text \<open>
  A tool that prints an empty list and exits with status 1, and a parser that knows
  the text of the empty list.
\<close>

definition tool_exits_1 :: "string list \<Rightarrow> bool \<Rightarrow> error + completed_process" where
  "tool_exits_1 args capture_output =
     Inr \<lparr>returncode = 1, stdout = ''[]'', stderr = ''warning''\<rparr>"

definition loads_empty_list :: "string \<Rightarrow> error + json" where
  "loads_empty_list s = (if s = ''[]'' then Inr (JList []) else Inl JSONDecodeError)"

text \<open>A node without an installed version.\<close>

definition no_version :: json where
  "no_version = JDict [(''package_name'', JStr ''six'')]"


text \<open>
  An older version of a package that is also in the tree, and the flat shape of a
  top-level entry.
\<close>

definition old_six :: json where
  "old_six = JDict [(''package_name'', JStr ''six''), (''installed_version'', JStr ''1.15.0'')]"

definition flat_six :: json where
  "flat_six = JDict
     [(''key'', JStr ''six''), (''package_name'', JStr ''six''),
      (''installed_version'', JStr ''1.16.0''), (''dependencies'', JList [])]"

text \<open>
  Two runtimes for the samples. Both know \<^verbatim>\<open>str()\<close> of \<^verbatim>\<open>None\<close>, the only value
  the samples format that is not a string, and have a graph library that takes
  string names only: \<^verbatim>\<open>node\<close> raises TypeError and \<^verbatim>\<open>edge\<close> AttributeError on
  any other name. In the first the rendering succeeds; in the second there is no
  Graphviz executable and \<^verbatim>\<open>render\<close> raises.
\<close>

definition graphviz_rt :: runtime where
  "graphviz_rt =
     \<lparr>str_of = (\<lambda>v. case v of JNull \<Rightarrow> Inr ''None'' | _ \<Rightarrow> Inr []),
      node_raises = (\<lambda>name label. if is_str name then None else Some TypeError),
      edge_raises = (\<lambda>tail_name head_name.
        if is_str tail_name \<and> is_str head_name then None else Some AttributeError),
      render_raises = (\<lambda>r. None)\<rparr>"

definition no_dot_rt :: runtime where
  "no_dot_rt = graphviz_rt\<lparr>render_raises := (\<lambda>r. Some ExecutableNotFound)\<rparr>"


section \<open>What a walk does\<close>

text \<open>
  One call of \<open>add_nodes_edges\<close> in terms of what it reads of the node: it appends
  the node statement and, under a truthy parent, the edge statement, then loops
  over the children; it raises when a read raises.
\<close>

lemma add_nodes_edges_ok:
  assumes "package_name_of dep = Some name" and "installed_version_of dep = Some version"
    and "deps_iterable dep"
  shows "add_nodes_edges py_str dep parent dot =
    add_each py_str (sub_deps dep) name
      (dot\<lparr>body := body dot @ Node name (node_label py_str name version)
                 # (if truthy parent then [Edge parent name] else [])\<rparr>)"
  using assms
  by (auto simp: package_name_of_def installed_version_of_def node_field_def deps_iterable_def
      sub_deps_def node_label_def node_def edge_def Let_def add_nodes_edges.simps
      split: sum.splits)

lemma add_nodes_edges_fail:
  assumes "package_name_of dep = None \<or> installed_version_of dep = None \<or> \<not> deps_iterable dep"
  shows "\<exists>e. add_nodes_edges py_str dep parent dot = Inl e"
  using assms
  by (auto simp: package_name_of_def installed_version_of_def node_field_def deps_iterable_def
      Let_def add_nodes_edges.simps split: sum.splits)

lemma walk_emits:
  "add_nodes_edges py_str dep parent dot = Inr dot' \<Longrightarrow>
     dot' = dot\<lparr>body := body dot @ emitted py_str dep parent\<rparr>"
  "add_each py_str deps parent dot = Inr dot' \<Longrightarrow>
     dot' = dot\<lparr>body := body dot @ concat (map (\<lambda>d. emitted py_str d parent) deps)\<rparr>"
proof (induction py_str dep parent dot and py_str deps parent dot arbitrary: dot' and dot'
    rule: add_nodes_edges_add_each.induct)
  case (1 py_str dep parent dot)
  show ?case
  proof (cases "package_name_of dep")
    case None
    with add_nodes_edges_fail [of dep py_str parent dot] "1.prems" show ?thesis by auto
  next
    case name: (Some name)
    show ?thesis
    proof (cases "installed_version_of dep")
      case None
      with add_nodes_edges_fail [of dep py_str parent dot] "1.prems" show ?thesis by auto
    next
      case version: (Some version)
      show ?thesis
      proof (cases "deps_iterable dep")
        case False
        with add_nodes_edges_fail [of dep py_str parent dot] "1.prems" show ?thesis by auto
      next
        case True
        show ?thesis
          using "1.prems" "1.IH" name version True
          apply (simp add: emitted.simps [of py_str dep parent]
              add_nodes_edges.simps [of py_str dep parent dot])
          apply (auto simp: package_name_of_def installed_version_of_def node_field_def
              deps_iterable_def sub_deps_def node_label_def node_def edge_def Let_def
              split: sum.splits)
          done
      qed
    qed
  qed
next
  case (2 py_str parent dot)
  then show ?case by simp
next
  case (3 py_str dep rest parent dot)
  from "3.prems" obtain dot1 where a: "add_nodes_edges py_str dep parent dot = Inr dot1"
    and b: "add_each py_str rest parent dot1 = Inr dot'"
    by (auto split: sum.splits)
  from "3.IH"(1) [OF a] have d1: "dot1 = dot\<lparr>body := body dot @ emitted py_str dep parent\<rparr>" .
  from "3.IH"(2) [OF a b]
  have "dot' = dot1\<lparr>body := body dot1 @ concat (map (\<lambda>d. emitted py_str d parent) rest)\<rparr>" .
  with d1 show ?case by simp
qed


text \<open>A walk returns exactly on the walkable nodes.\<close>

lemma walk_walkable:
  "add_nodes_edges py_str dep parent dot = Inr dot' \<Longrightarrow> walkable dep"
  "add_each py_str deps parent dot = Inr dot' \<Longrightarrow> list_all walkable deps"
proof (induction py_str dep parent dot and py_str deps parent dot arbitrary: dot' and dot'
    rule: add_nodes_edges_add_each.induct)
  case (1 py_str dep parent dot)
  from "1.prems" add_nodes_edges_fail [of dep py_str parent dot]
  obtain name version where nv: "package_name_of dep = Some name"
      "installed_version_of dep = Some version" and it: "deps_iterable dep"
    by fastforce
  from "1.prems" "1.IH" nv it have "list_all walkable (sub_deps dep)"
    by (auto simp: add_nodes_edges.simps [of py_str dep parent dot] package_name_of_def
        installed_version_of_def node_field_def deps_iterable_def sub_deps_def Let_def
        split: sum.splits)
  with nv it show ?case by (simp add: walkable.simps [of dep])
next
  case (2 py_str parent dot)
  then show ?case by simp
next
  case (3 py_str dep rest parent dot)
  from "3.prems" obtain dot1 where a: "add_nodes_edges py_str dep parent dot = Inr dot1"
    and b: "add_each py_str rest parent dot1 = Inr dot'"
    by (auto split: sum.splits)
  from "3.IH"(1) [OF a] "3.IH"(2) [OF a b] show ?case by simp
qed




lemma walkable_tree_nodes: "walkable dep \<Longrightarrow> d \<in> set (tree_nodes dep) \<Longrightarrow> walkable d"
proof (induction dep rule: tree_nodes.induct)
  case (1 dep)
  from "1.prems"(1) have subs: "list_all walkable (sub_deps dep)"
    by (simp add: walkable.simps [of dep])
  from "1.prems"(2) consider "d = dep" | sub where "sub \<in> set (sub_deps dep)" "d \<in> set (tree_nodes sub)"
    by (auto simp: tree_nodes.simps [of dep])
  then show ?case
  proof cases
    case 1
    with "1.prems" show ?thesis by simp
  next
    case 2
    with subs "1.IH" show ?thesis by (auto simp: list_all_iff)
  qed
qed

lemma node_stmts_append: "node_stmts (xs @ ys) = node_stmts xs @ node_stmts ys"
  by (induction xs rule: node_stmts.induct) auto

lemma edge_stmts_append: "edge_stmts (xs @ ys) = edge_stmts xs @ edge_stmts ys"
  by (induction xs rule: edge_stmts.induct) auto

lemma node_stmts_concat: "node_stmts (concat xss) = concat (map node_stmts xss)"
  by (induction xss) (auto simp: node_stmts_append)

lemma edge_stmts_concat: "edge_stmts (concat xss) = concat (map edge_stmts xss)"
  by (induction xss) (auto simp: edge_stmts_append)

lemma emitted_nodes:
  "walkable dep \<Longrightarrow>
     map Some (node_stmts (emitted py_str dep parent)) = map (node_entry py_str) (tree_nodes dep)"
proof (induction dep arbitrary: parent rule: tree_nodes.induct)
  case (1 dep)
  from "1.prems" obtain name version where nv: "package_name_of dep = Some name"
      "installed_version_of dep = Some version"
      and subs: "list_all walkable (sub_deps dep)"
    by (auto simp: walkable.simps [of dep])
  have eq: "map (\<lambda>sub. map Some (node_stmts (emitted py_str sub name))) (sub_deps dep)
      = map (\<lambda>sub. map (node_entry py_str) (tree_nodes sub)) (sub_deps dep)"
    using subs "1.IH" by (auto simp: list_all_iff)
  have "map Some (concat (map (\<lambda>sub. node_stmts (emitted py_str sub name)) (sub_deps dep)))
      = concat (map (\<lambda>sub. map Some (node_stmts (emitted py_str sub name))) (sub_deps dep))"
    by (simp add: map_concat comp_def)
  also have "\<dots> = concat (map (\<lambda>sub. map (node_entry py_str) (tree_nodes sub)) (sub_deps dep))"
    by (simp only: eq)
  finally have "map Some (concat (map (\<lambda>sub. node_stmts (emitted py_str sub name)) (sub_deps dep)))
      = concat (map (\<lambda>sub. map (node_entry py_str) (tree_nodes sub)) (sub_deps dep))" .
  moreover have "node_entry py_str dep = Some (name, node_label py_str name version)"
    using nv by (simp add: node_entry_def)
  ultimately show ?case using nv
    by (simp add: emitted.simps [of py_str dep parent] tree_nodes.simps [of dep]
        node_stmts_append node_stmts_concat map_concat comp_def)
qed


text \<open>The node and edge statements of a complete walk, read off the tree.\<close>

lemma named_edges_Un: "named_edges (xs @ ys) = named_edges xs \<union> named_edges ys"
  by (auto simp: named_edges_def)

lemma named_edges_Nil: "named_edges [] = {}"
  by (simp add: named_edges_def)

lemma named_edges_concat: "named_edges (concat xss) = (\<Union>xs \<in> set xss. named_edges xs)"
  by (induction xss) (simp_all add: named_edges_Un named_edges_Nil)

lemma named_edges_Cons:
  "named_edges (pc # pairs) = named_edges [pc] \<union> named_edges pairs"
  by (auto simp: named_edges_def)

lemma named_edges_single:
  "package_name_of p = Some t \<Longrightarrow> package_name_of c = Some h \<Longrightarrow>
     named_edges [(p, c)] = (if truthy t then {(t, h)} else {})"
  by (auto simp: named_edges_def)

lemma emitted_edges:
  "walkable dep \<Longrightarrow> package_name_of dep = Some name \<Longrightarrow>
     set (edge_stmts (emitted py_str dep parent))
       = (if truthy parent then {(parent, name)} else {}) \<union> named_edges (tree_edges dep)"
proof (induction dep arbitrary: parent name rule: tree_nodes.induct)
  case (1 dep)
  from "1.prems" obtain version where v: "installed_version_of dep = Some version"
      and subs: "list_all walkable (sub_deps dep)"
    by (auto simp: walkable.simps [of dep])
  have sub_eq: "set (edge_stmts (emitted py_str sub name))
      = named_edges ((dep, sub) # tree_edges sub)" if "sub \<in> set (sub_deps dep)" for sub
  proof -
    from that subs have w: "walkable sub" by (simp add: list_all_iff)
    then obtain h where h: "package_name_of sub = Some h" by (auto simp: walkable.simps [of sub])
    from "1.IH" [OF that w h, of name]
    have "set (edge_stmts (emitted py_str sub name))
        = (if truthy name then {(name, h)} else {}) \<union> named_edges (tree_edges sub)" .
    also have "(if truthy name then {(name, h)} else {}) = named_edges [(dep, sub)]"
      using named_edges_single [OF "1.prems"(2) h] by simp
    finally show ?thesis using named_edges_Cons [of "(dep, sub)" "tree_edges sub"] by simp
  qed
  have "set (edge_stmts (concat (map (\<lambda>sub. emitted py_str sub name) (sub_deps dep))))
      = (\<Union>sub \<in> set (sub_deps dep). set (edge_stmts (emitted py_str sub name)))"
    by (simp add: edge_stmts_concat)
  also have "\<dots> = (\<Union>sub \<in> set (sub_deps dep). named_edges ((dep, sub) # tree_edges sub))"
    using sub_eq by simp
  also have "\<dots> = named_edges (tree_edges dep)"
    by (simp add: tree_edges.simps [of dep] named_edges_concat)
  finally show ?case using "1.prems"(2) v
    by (simp add: emitted.simps [of py_str dep parent] edge_stmts_append)
qed

lemma create_dependency_graph_Inr:
  assumes "create_dependency_graph py_str (JList deps) = Inr r"
  shows "list_all walkable deps"
    and "r = \<lparr>graph = \<lparr>format = ''png'', body = concat (map (\<lambda>d. emitted py_str d JNull) deps)\<rparr>,
              filename = ''dependencies'', view = False\<rparr>"
proof -
  from assms obtain dot' where w: "add_each py_str deps JNull (Digraph ''png'') = Inr dot'"
    and r: "r = render ''dependencies'' False dot'"
    by (auto simp: create_dependency_graph_def iterate_def Let_def split: sum.splits)
  from walk_walkable(2) [OF w] show "list_all walkable deps" .
  from walk_emits(2) [OF w] r
  show "r = \<lparr>graph = \<lparr>format = ''png'', body = concat (map (\<lambda>d. emitted py_str d JNull) deps)\<rparr>,
              filename = ''dependencies'', view = False\<rparr>"
    by (simp add: render_def Digraph_def)
qed

lemma forest_node_stmts:
  "list_all walkable deps \<Longrightarrow>
     map Some (node_stmts (concat (map (\<lambda>d. emitted py_str d parent) deps)))
       = map (node_entry py_str) (forest_nodes deps)"
  by (induction deps) (auto simp: forest_nodes_def node_stmts_append emitted_nodes)

lemma forest_edge_stmts:
  "list_all walkable deps \<Longrightarrow>
     set (edge_stmts (concat (map (\<lambda>d. emitted py_str d JNull) deps)))
       = named_edges (forest_edges deps)"
proof (induction deps)
  case Nil
  then show ?case by (simp add: forest_edges_def named_edges_Nil)
next
  case (Cons d deps)
  from Cons.prems have w: "walkable d" by simp
  then obtain n where n: "package_name_of d = Some n" by (auto simp: walkable.simps [of d])
  from emitted_edges [OF w n, of py_str JNull] Cons show ?case
    by (simp add: forest_edges_def edge_stmts_append named_edges_Un)
qed


text \<open>Membership in the tree, and the identifiers of the node statements.\<close>

lemma tree_nodes_self: "dep \<in> set (tree_nodes dep)"
  by (simp add: tree_nodes.simps [of dep])

lemma tree_nodes_sub:
  "d \<in> set (tree_nodes dep) \<Longrightarrow> c \<in> set (sub_deps d) \<Longrightarrow> c \<in> set (tree_nodes dep)"
proof (induction dep rule: tree_nodes.induct)
  case (1 dep)
  from "1.prems"(1) consider "d = dep"
    | sub where "sub \<in> set (sub_deps dep)" "d \<in> set (tree_nodes sub)"
    by (auto simp: tree_nodes.simps [of dep])
  then show ?case
  proof cases
    case 1
    with "1.prems"(2) tree_nodes_self [of c] show ?thesis
      by (auto simp: tree_nodes.simps [of dep])
  next
    case 2
    from "1.IH" [OF 2(1) 2(2) "1.prems"(2)] 2(1) show ?thesis
      by (auto simp: tree_nodes.simps [of dep])
  qed
qed

lemma forest_nodes_sub:
  "d \<in> set (forest_nodes deps) \<Longrightarrow> c \<in> set (sub_deps d) \<Longrightarrow> c \<in> set (forest_nodes deps)"
  by (auto simp: forest_nodes_def dest: tree_nodes_sub)

lemma walkable_forest_nodes:
  "list_all walkable deps \<Longrightarrow> d \<in> set (forest_nodes deps) \<Longrightarrow> walkable d"
  by (auto simp: forest_nodes_def list_all_iff dest: walkable_tree_nodes)

lemma walkable_fields:
  assumes "walkable d"
  obtains name version where "package_name_of d = Some name"
    and "installed_version_of d = Some version"
    and "node_entry py_str d = Some (name, node_label py_str name version)"
  using assms by (auto simp: walkable.simps [of d] node_entry_def)

lemma forest_node_ids:
  assumes "list_all walkable deps"
    and "map Some stmts = map (node_entry py_str) (forest_nodes deps)"
  shows "fst ` set stmts = {n. \<exists>d \<in> set (forest_nodes deps). package_name_of d = Some n}"
proof (intro set_eqI iffI)
  fix n assume "n \<in> fst ` set stmts"
  then obtain l where "(n, l) \<in> set stmts" by auto
  then have "Some (n, l) \<in> set (map Some stmts)" by simp
  with assms(2) obtain d where d: "d \<in> set (forest_nodes deps)"
    and e: "node_entry py_str d = Some (n, l)" by auto
  from e have "package_name_of d = Some n"
    by (auto simp: node_entry_def split: option.splits)
  with d show "n \<in> {n. \<exists>d \<in> set (forest_nodes deps). package_name_of d = Some n}" by auto
next
  fix n assume "n \<in> {n. \<exists>d \<in> set (forest_nodes deps). package_name_of d = Some n}"
  then obtain d where d: "d \<in> set (forest_nodes deps)" and n: "package_name_of d = Some n"
    by auto
  from walkable_forest_nodes [OF assms(1) d] obtain name version
    where "package_name_of d = Some name"
      and e: "node_entry py_str d = Some (name, node_label py_str name version)"
    by (rule walkable_fields)
  with n have e': "node_entry py_str d = Some (n, node_label py_str n version)" by simp
  from d have "node_entry py_str d \<in> set (map (node_entry py_str) (forest_nodes deps))" by simp
  with assms(2) e' have "Some (n, node_label py_str n version) \<in> set (map Some stmts)" by simp
  then have "(n, node_label py_str n version) \<in> set stmts" by auto
  then show "n \<in> fst ` set stmts" by force
qed

text \<open>A node that cannot be read ends the walk with an exception.\<close>

lemma unreadable_node_raises:
  assumes "d \<in> set (forest_nodes deps)"
    and "package_name_of d = None \<or> installed_version_of d = None"
  shows "\<exists>e. create_dependency_graph py_str (JList deps) = Inl e"
proof (cases "create_dependency_graph py_str (JList deps)")
  case (Inl e)
  then show ?thesis by simp
next
  case (Inr r)
  from create_dependency_graph_Inr(1) [OF Inr] have "list_all walkable deps" .
  from walkable_forest_nodes [OF this assms(1)] have "walkable d" .
  with assms(2) show ?thesis by (auto simp: walkable.simps [of d])
qed

lemma missing_key_raises:
  assumes "dict_get dep ''package'' dep = Inr (JDict kvs)"
  shows "map_of kvs ''package_name'' = None \<Longrightarrow>
      add_nodes_edges py_str dep parent dot = Inl (KeyError ''package_name'')"
    and "map_of kvs ''package_name'' = Some name \<Longrightarrow>
      map_of kvs ''installed_version'' = None \<Longrightarrow>
      add_nodes_edges py_str dep parent dot = Inl (KeyError ''installed_version'')"
  using assms by (simp_all add: add_nodes_edges.simps [of py_str dep parent dot] subscript_def)


lemma walk_keeps_format:
  "add_each py_str deps parent dot = Inr dot' \<Longrightarrow> format dot' = format dot"
  by (drule walk_emits(2)) simp

text \<open>Every node of a walked tree has its statement; every edge has a truthy tail.\<close>

lemma forest_node_emitted:
  assumes "list_all walkable deps"
    and "map Some stmts = map (node_entry py_str) (forest_nodes deps)"
    and "d \<in> set (forest_nodes deps)"
  shows "\<exists>n v. package_name_of d = Some n \<and> installed_version_of d = Some v \<and>
    (n, node_label py_str n v) \<in> set stmts"
proof -
  from walkable_forest_nodes [OF assms(1) assms(3)] obtain n v
    where n: "package_name_of d = Some n" and v: "installed_version_of d = Some v"
      and e: "node_entry py_str d = Some (n, node_label py_str n v)"
    by (rule walkable_fields)
  from assms(3) have "node_entry py_str d \<in> set (map (node_entry py_str) (forest_nodes deps))"
    by simp
  with assms(2) e have "Some (n, node_label py_str n v) \<in> set (map Some stmts)" by simp
  then have "(n, node_label py_str n v) \<in> set stmts" by auto
  with n v show ?thesis by blast
qed

lemma named_edges_truthy: "(t, h) \<in> named_edges pairs \<Longrightarrow> truthy t"
  by (auto simp: named_edges_def)

lemma walk_visits:
  assumes "add_nodes_edges py_str dep parent dot = Inr dot'"
  shows "\<exists>visits. node_stmts (body dot') = node_stmts (body dot) @ visits \<and>
    map Some visits = map (node_entry py_str) (tree_nodes dep)"
proof -
  from walk_walkable(1) [OF assms] have w: "walkable dep" .
  from walk_emits(1) [OF assms]
  have "node_stmts (body dot') = node_stmts (body dot) @ node_stmts (emitted py_str dep parent)"
    by (simp add: node_stmts_append)
  with emitted_nodes [OF w, of py_str parent] show ?thesis by blast
qed

text \<open>A walk depends on a node through the three reads only.\<close>

lemma same_reads_same_walk:
  assumes "dict_get d1 ''package'' d1 = Inr data1" and "dict_get d2 ''package'' d2 = Inr data2"
    and "subscript data1 ''package_name'' = subscript data2 ''package_name''"
    and "subscript data1 ''installed_version'' = subscript data2 ''installed_version''"
    and "dict_get d1 ''dependencies'' (JList []) = dict_get d2 ''dependencies'' (JList [])"
  shows "add_nodes_edges py_str d1 parent dot = add_nodes_edges py_str d2 parent dot"
  using assms
  by (simp add: add_nodes_edges.simps [of py_str d1 parent dot]
      add_nodes_edges.simps [of py_str d2 parent dot] cong: sum.case_cong)

lemma map_of_with_dependencies:
  "map_of (items @ [(''dependencies'', deps)]) key =
     (case map_of items key of
        None \<Rightarrow> (if key = ''dependencies'' then Some deps else None)
      | Some v \<Rightarrow> Some v)"
  by (simp add: map_add_def split: option.splits)

section \<open>What a walk does under a runtime\<close>






text \<open>A run that returns under a runtime is the run recorded above.\<close>

lemma format_value_rt_Inr:
  assumes "\<And>v s. str_of rt v = Inr s \<Longrightarrow> py_str v = s"
  shows "format_value_rt rt v = Inr s \<Longrightarrow> format_value py_str v = s"
  using assms by (cases v) (auto simp: format_value_rt_def format_value_def)

lemma rt_returns:
  assumes str: "\<And>v s. str_of rt v = Inr s \<Longrightarrow> py_str v = s"
  shows "add_nodes_edges_rt rt frames dep parent dot = Inr dot' \<Longrightarrow>
      add_nodes_edges py_str dep parent dot = Inr dot'"
    and "add_each_rt rt frames deps parent dot = Inr dot' \<Longrightarrow>
      add_each py_str deps parent dot = Inr dot'"
  using str
proof (induction rt frames dep parent dot and rt frames deps parent dot arbitrary: dot' and dot'
    rule: add_nodes_edges_rt_add_each_rt.induct)
  case (1 rt dep parent dot)
  then show ?case by simp
next
  case (2 rt frames dep parent dot)
  from "2.prems"(1) obtain data name version name_text version_text dot1 dot2 deps subs
    where data: "dict_get dep ''package'' dep = Inr data"
      and name: "subscript data ''package_name'' = Inr name"
      and version: "subscript data ''installed_version'' = Inr version"
      and nt: "format_value_rt rt name = Inr name_text"
      and vt: "format_value_rt rt version = Inr version_text"
      and d1: "node_rt rt name (name_text @ [CHR 0x0A] @ version_text) dot = Inr dot1"
      and d2: "(if truthy parent then edge_rt rt parent name dot1 else Inr dot1) = Inr dot2"
      and deps: "dict_get dep ''dependencies'' (JList []) = Inr deps"
      and subs: "iterate deps = Inr subs"
      and rest: "add_each_rt rt frames subs name dot2 = Inr dot'"
    by (auto split: sum.splits)
  from "2.IH" [OF data name version nt vt d1 d2 deps subs rest "2.prems"(2)]
  have ih: "add_each py_str subs name dot2 = Inr dot'" .
  from format_value_rt_Inr [OF "2.prems"(2) nt] have f1: "format_value py_str name = name_text"
    by simp
  from format_value_rt_Inr [OF "2.prems"(2) vt] have f2: "format_value py_str version = version_text"
    by simp
  from d1 have e1: "dot1 = node name (name_text @ [CHR 0x0A] @ version_text) dot"
    by (auto simp: node_rt_def split: option.splits)
  from d2 have e2: "dot2 = (if truthy parent then edge parent name dot1 else dot1)"
    by (auto simp: edge_rt_def split: option.splits if_splits)
  from data name version deps subs ih f1 f2 e1 e2 show ?case
    by (cases "truthy parent")
      (simp_all add: add_nodes_edges.simps [of py_str dep parent dot] Let_def)
next
  case (3 rt frames parent dot)
  then show ?case by simp
next
  case (4 rt frames dep rest parent dot)
  from "4.prems"(1) obtain dot1 where a: "add_nodes_edges_rt rt frames dep parent dot = Inr dot1"
    and b: "add_each_rt rt frames rest parent dot1 = Inr dot'"
    by (auto split: sum.splits)
  from "4.IH"(1) [OF a "4.prems"(2)] "4.IH"(2) [OF a b "4.prems"(2)] show ?case by simp
qed


lemma rt_keeps_format:
  "add_each_rt rt frames deps parent dot = Inr dot' \<Longrightarrow> format dot' = format dot"
proof -
  assume a: "add_each_rt rt frames deps parent dot = Inr dot'"
  have "add_each (\<lambda>v. case str_of rt v of Inr s \<Rightarrow> s | Inl e \<Rightarrow> []) deps parent dot = Inr dot'"
    by (rule rt_returns(2) [OF _ a]) simp
  then show ?thesis by (rule walk_keeps_format)
qed




section \<open>The samples, read\<close>

text \<open>The children and the nodes of the samples.\<close>

lemma sub_deps_dep_six: "sub_deps dep_six = []"
  by code_simp

lemma sub_deps_unnamed_parent: "sub_deps unnamed_parent = [dep_six]"
  by code_simp

lemma sub_deps_pkg_dateutil: "sub_deps pkg_dateutil = [dep_six]"
  by code_simp

lemma sub_deps_old_six: "sub_deps old_six = []"
  by code_simp

lemma forest_nodes_two_versions:
  "forest_nodes [pkg_dateutil, old_six] = [pkg_dateutil, dep_six, old_six]"
  by (simp add: forest_nodes_def tree_nodes.simps [of pkg_dateutil] tree_nodes.simps [of dep_six]
      tree_nodes.simps [of old_six] sub_deps_pkg_dateutil sub_deps_dep_six sub_deps_old_six)




section \<open>The claims\<close>

text \<open>
  In every statement below a run of \<open>create_dependency_graph\<close> that returns
  \<open>Inr r\<close> is a run that raised no exception, and \<open>graph r\<close> is the graph it
  handed to \<^verbatim>\<open>render\<close>. C5 and C6 are about the exceptions themselves, and
  speak of the program under a runtime, where the calls it makes can raise too.
\<close>

text \<open>
  C1, as amended. After a run that raised no exception, every node of the tree has
  a package name; the node identifiers of the rendered graph are exactly the
  package names of the tree's nodes; and its edges are exactly the pairs of parent
  name and child name over the parent-child pairs of the tree whose parent name is
  truthy. A parent whose name is falsy (the empty string) gets no edge to its
  children, which is where the claim as stated fails.
\<close>

theorem graph_of_tree:
  assumes "create_dependency_graph py_str (JList deps) = Inr r"
  shows "(\<forall>d \<in> set (forest_nodes deps). package_name_of d \<noteq> None) \<and>
    node_ids (graph r) = {n. \<exists>d \<in> set (forest_nodes deps). package_name_of d = Some n} \<and>
    edges (graph r) =
      {(t, h). \<exists>(p, c) \<in> set (forest_edges deps).
         package_name_of p = Some t \<and> package_name_of c = Some h \<and> truthy t}"
proof -
  from create_dependency_graph_Inr [OF assms]
  have w: "list_all walkable deps"
    and b: "body (graph r) = concat (map (\<lambda>d. emitted py_str d JNull) deps)"
    by simp_all
  have "package_name_of d \<noteq> None" if "d \<in> set (forest_nodes deps)" for d
    using walkable_forest_nodes [OF w that] by (auto simp: walkable.simps [of d])
  moreover from forest_node_stmts [OF w, of py_str JNull] b
  have "map Some (node_stmts (body (graph r))) = map (node_entry py_str) (forest_nodes deps)"
    by simp
  from forest_node_ids [OF w this]
  have "node_ids (graph r) = {n. \<exists>d \<in> set (forest_nodes deps). package_name_of d = Some n}"
    by (simp add: node_ids_def)
  moreover from forest_edge_stmts [OF w, of py_str] b
  have "edges (graph r) =
      {(t, h). \<exists>(p, c) \<in> set (forest_edges deps).
         package_name_of p = Some t \<and> package_name_of c = Some h \<and> truthy t}"
    by (simp add: edges_def named_edges_def)
  ultimately show ?thesis by blast
qed

theorem graph_of_tree_witness:
  "create_dependency_graph (\<lambda>v. []) (JList [pkg_dateutil, pkg_six]) = Inr example_rendering \<and>
   node_ids (graph example_rendering) = {JStr ''python-dateutil'', JStr ''six''} \<and>
   edges (graph example_rendering) = {(JStr ''python-dateutil'', JStr ''six'')} \<and>
   node_ids (graph example_rendering) =
     {n. \<exists>d \<in> set (forest_nodes [pkg_dateutil, pkg_six]). package_name_of d = Some n} \<and>
   edges (graph example_rendering) =
      {(t, h). \<exists>(p, c) \<in> set (forest_edges [pkg_dateutil, pkg_six]).
         package_name_of p = Some t \<and> package_name_of c = Some h \<and> truthy t}"
proof -
  have h: "create_dependency_graph (\<lambda>v. []) (JList [pkg_dateutil, pkg_six]) = Inr example_rendering"
    by code_simp
  have n: "node_ids (graph example_rendering) = {JStr ''python-dateutil'', JStr ''six''}"
    by (auto simp: example_rendering_def node_ids_def)
  have e: "edges (graph example_rendering) = {(JStr ''python-dateutil'', JStr ''six'')}"
    by (simp add: example_rendering_def edges_def)
  note t = graph_of_tree [OF h]
  from t have t2: "node_ids (graph example_rendering) =
     {n. \<exists>d \<in> set (forest_nodes [pkg_dateutil, pkg_six]). package_name_of d = Some n}"
    by (rule conjunct1 [OF conjunct2])
  from t have t3: "edges (graph example_rendering) =
      {(t, h). \<exists>(p, c) \<in> set (forest_edges [pkg_dateutil, pkg_six]).
         package_name_of p = Some t \<and> package_name_of c = Some h \<and> truthy t}"
    by (rule conjunct2 [OF conjunct2])
  show ?thesis by (intro conjI) (rule h n e t2 t3)+
qed

theorem graph_of_tree_counterexample:
  "create_dependency_graph (\<lambda>v. []) (JList [unnamed_parent]) =
     Inr \<lparr>graph = \<lparr>format = ''png'',
            body = [Node (JStr '''') ''\<newline>1.0'', Node (JStr ''six'') ''six\<newline>1.16.0'']\<rparr>,
          filename = ''dependencies'', view = False\<rparr> \<and>
   forest_edges [unnamed_parent] = [(unnamed_parent, dep_six)] \<and>
   package_name_of unnamed_parent = Some (JStr '''') \<and>
   package_name_of dep_six = Some (JStr ''six'') \<and>
   edges \<lparr>format = ''png'',
            body = [Node (JStr '''') ''\<newline>1.0'', Node (JStr ''six'') ''six\<newline>1.16.0'']\<rparr> = {}"
proof (intro conjI)
  show "create_dependency_graph (\<lambda>v. []) (JList [unnamed_parent]) =
     Inr \<lparr>graph = \<lparr>format = ''png'',
            body = [Node (JStr '''') ''\<newline>1.0'', Node (JStr ''six'') ''six\<newline>1.16.0'']\<rparr>,
          filename = ''dependencies'', view = False\<rparr>"
    by code_simp
  show "forest_edges [unnamed_parent] = [(unnamed_parent, dep_six)]"
    by (simp add: forest_edges_def tree_edges.simps [of unnamed_parent]
        tree_edges.simps [of dep_six] sub_deps_unnamed_parent sub_deps_dep_six)
  show "package_name_of unnamed_parent = Some (JStr '''')"
    by code_simp
  show "package_name_of dep_six = Some (JStr ''six'')"
    by code_simp
  show "edges \<lparr>format = ''png'',
            body = [Node (JStr '''') ''\<newline>1.0'', Node (JStr ''six'') ''six\<newline>1.16.0'']\<rparr> = {}"
    by (simp add: edges_def)
qed

text \<open>
  C2. Every node of the input tree has its node statement in the rendered graph, in
  the order of the walk and one for one: the identifier is the package name, and
  the label is the package name, a newline and the installed version, each
  formatted as an f-string formats it (a string as it is).
\<close>

theorem node_carries_name_and_version:
  assumes "create_dependency_graph py_str (JList deps) = Inr r"
  shows "map Some (node_stmts (body (graph r))) = map (node_entry py_str) (forest_nodes deps) \<and>
    (\<forall>d \<in> set (forest_nodes deps). \<exists>name version.
       package_name_of d = Some name \<and> installed_version_of d = Some version \<and>
       node_entry py_str d =
         Some (name, format_value py_str name @ [CHR 0x0A] @ format_value py_str version) \<and>
       (name, format_value py_str name @ [CHR 0x0A] @ format_value py_str version)
         \<in> set (node_stmts (body (graph r))))"
proof -
  from create_dependency_graph_Inr [OF assms]
  have w: "list_all walkable deps"
    and b: "body (graph r) = concat (map (\<lambda>d. emitted py_str d JNull) deps)"
    by simp_all
  from forest_node_stmts [OF w, of py_str JNull] b
  have eq: "map Some (node_stmts (body (graph r))) = map (node_entry py_str) (forest_nodes deps)"
    by simp
  have "\<exists>name version.
       package_name_of d = Some name \<and> installed_version_of d = Some version \<and>
       node_entry py_str d =
         Some (name, format_value py_str name @ [CHR 0x0A] @ format_value py_str version) \<and>
       (name, format_value py_str name @ [CHR 0x0A] @ format_value py_str version)
         \<in> set (node_stmts (body (graph r)))"
    if d: "d \<in> set (forest_nodes deps)" for d
  proof -
    from d have "node_entry py_str d \<in> set (map Some (node_stmts (body (graph r))))"
      unfolding eq by simp
    then obtain nl where nl: "node_entry py_str d = Some nl"
      and mem: "nl \<in> set (node_stmts (body (graph r)))" by auto
    from nl obtain name version where "package_name_of d = Some name"
      "installed_version_of d = Some version"
      "nl = (name, format_value py_str name @ [CHR 0x0A] @ format_value py_str version)"
      by (auto simp: node_entry_def node_label_def split: option.splits)
    with nl mem show ?thesis by auto
  qed
  with eq show ?thesis by blast
qed

theorem node_carries_name_and_version_witness:
  "create_dependency_graph (\<lambda>v. []) (JList [pkg_dateutil, pkg_six]) = Inr example_rendering \<and>
   node_stmts (body (graph example_rendering)) =
     [(JStr ''python-dateutil'', ''python-dateutil\<newline>2.9.0''),
      (JStr ''six'', ''six\<newline>1.16.0''), (JStr ''six'', ''six\<newline>1.16.0'')] \<and>
   map Some (node_stmts (body (graph example_rendering))) =
     map (node_entry (\<lambda>v. [])) (forest_nodes [pkg_dateutil, pkg_six])"
proof -
  have h: "create_dependency_graph (\<lambda>v. []) (JList [pkg_dateutil, pkg_six]) = Inr example_rendering"
    by code_simp
  have e: "node_stmts (body (graph example_rendering)) =
     [(JStr ''python-dateutil'', ''python-dateutil\<newline>2.9.0''),
      (JStr ''six'', ''six\<newline>1.16.0''), (JStr ''six'', ''six\<newline>1.16.0'')]"
    by (simp add: example_rendering_def)
  from node_carries_name_and_version [OF h] h e show ?thesis by blast
qed

text \<open>
  C3. \<open>get_pipdeptree_output\<close> consults the process runner at the one command
  \<^verbatim>\<open>pipdeptree --json\<close> with output capture on and nowhere else: when the process
  completes it returns what \<^verbatim>\<open>json.loads\<close> makes of the captured stdout,
  unchanged; when the process cannot be started the exception is the result.
\<close>

theorem get_pipdeptree_output_spec:
  "(run [''pipdeptree'', ''--json''] True = Inr result \<longrightarrow>
      get_pipdeptree_output run loads = loads (stdout result)) \<and>
   (run [''pipdeptree'', ''--json''] True = Inl e \<longrightarrow>
      get_pipdeptree_output run loads = Inl e) \<and>
   (run [''pipdeptree'', ''--json''] True = run' [''pipdeptree'', ''--json''] True \<longrightarrow>
      get_pipdeptree_output run loads = get_pipdeptree_output run' loads)"
  by (simp add: get_pipdeptree_output_def)

theorem get_pipdeptree_output_spec_witness:
  "tool_exits_1 [''pipdeptree'', ''--json''] True =
     Inr \<lparr>returncode = 1, stdout = ''[]'', stderr = ''warning''\<rparr> \<and>
   get_pipdeptree_output tool_exits_1 loads_empty_list = Inr (JList []) \<and>
   (\<lambda>args capture. Inl OSError) [''pipdeptree'', ''--json''] True = Inl OSError \<and>
   get_pipdeptree_output (\<lambda>args capture. Inl OSError) loads_empty_list = Inl OSError \<and>
   get_pipdeptree_output tool_exits_1 loads_empty_list =
     get_pipdeptree_output
       (\<lambda>args capture. if args = [''pipdeptree'', ''--json''] \<and> capture
          then Inr \<lparr>returncode = 1, stdout = ''[]'', stderr = ''warning''\<rparr> else Inl OSError)
       loads_empty_list"
proof -
  have r: "tool_exits_1 [''pipdeptree'', ''--json''] True =
     Inr \<lparr>returncode = 1, stdout = ''[]'', stderr = ''warning''\<rparr>"
    by (simp add: tool_exits_1_def)
  note t1 = get_pipdeptree_output_spec [of tool_exits_1
      "\<lparr>returncode = 1, stdout = ''[]'', stderr = ''warning''\<rparr>" loads_empty_list]
  from t1 r have a: "get_pipdeptree_output tool_exits_1 loads_empty_list = Inr (JList [])"
    by (simp add: loads_empty_list_def)
  note t2 = get_pipdeptree_output_spec [of "\<lambda>args capture. Inl OSError" _ loads_empty_list OSError]
  from t2 have b: "get_pipdeptree_output (\<lambda>args capture. Inl OSError) loads_empty_list = Inl OSError"
    by simp
  note t3 = get_pipdeptree_output_spec [of tool_exits_1 _ loads_empty_list _
      "\<lambda>args capture. if args = [''pipdeptree'', ''--json''] \<and> capture
          then Inr \<lparr>returncode = 1, stdout = ''[]'', stderr = ''warning''\<rparr> else Inl OSError"]
  from t3 r have c: "get_pipdeptree_output tool_exits_1 loads_empty_list =
     get_pipdeptree_output
       (\<lambda>args capture. if args = [''pipdeptree'', ''--json''] \<and> capture
          then Inr \<lparr>returncode = 1, stdout = ''[]'', stderr = ''warning''\<rparr> else Inl OSError)
       loads_empty_list"
    by simp
  from r a b c show ?thesis by simp
qed

text \<open>
  C4, as amended. Nothing is caught: a tool that cannot be started and a stdout
  that does not parse end \<open>get_pipdeptree_output\<close> and \<open>main\<close> with that
  exception, and a tree node whose data dictionary lacks \<^verbatim>\<open>package_name\<close> or
  \<^verbatim>\<open>installed_version\<close> ends \<open>create_dependency_graph\<close> with an exception, a
  KeyError of the missing key when the node is reached. The return code of the
  completed process is never read: whatever it is, stdout is parsed.
\<close>

theorem failures_propagate:
  "(run [''pipdeptree'', ''--json''] True = Inl e \<longrightarrow>
      get_pipdeptree_output run loads = Inl e \<and> main run loads py_str = Inl e) \<and>
   (run [''pipdeptree'', ''--json''] True = Inr result \<and> loads (stdout result) = Inl e \<longrightarrow>
      get_pipdeptree_output run loads = Inl e \<and> main run loads py_str = Inl e) \<and>
   (run [''pipdeptree'', ''--json''] True = Inr result \<longrightarrow>
      get_pipdeptree_output run loads = loads (stdout result)) \<and>
   (d \<in> set (forest_nodes deps) \<and> (package_name_of d = None \<or> installed_version_of d = None) \<longrightarrow>
      (\<exists>e'. create_dependency_graph py_str (JList deps) = Inl e')) \<and>
   (dict_get dep ''package'' dep = Inr (JDict kvs) \<and> map_of kvs ''package_name'' = None \<longrightarrow>
      add_nodes_edges py_str dep parent dot = Inl (KeyError ''package_name'')) \<and>
   (dict_get dep ''package'' dep = Inr (JDict kvs) \<and> map_of kvs ''package_name'' = Some name \<and>
    map_of kvs ''installed_version'' = None \<longrightarrow>
      add_nodes_edges py_str dep parent dot = Inl (KeyError ''installed_version''))"
proof (intro conjI impI)
  assume "run [''pipdeptree'', ''--json''] True = Inl e"
  then show "get_pipdeptree_output run loads = Inl e" "main run loads py_str = Inl e"
    by (simp_all add: get_pipdeptree_output_def main_def)
next
  assume "run [''pipdeptree'', ''--json''] True = Inr result \<and> loads (stdout result) = Inl e"
  then show "get_pipdeptree_output run loads = Inl e" "main run loads py_str = Inl e"
    by (simp_all add: get_pipdeptree_output_def main_def)
next
  assume "run [''pipdeptree'', ''--json''] True = Inr result"
  then show "get_pipdeptree_output run loads = loads (stdout result)"
    by (simp add: get_pipdeptree_output_def)
next
  assume "d \<in> set (forest_nodes deps) \<and> (package_name_of d = None \<or> installed_version_of d = None)"
  then show "\<exists>e'. create_dependency_graph py_str (JList deps) = Inl e'"
    using unreadable_node_raises by blast
next
  assume "dict_get dep ''package'' dep = Inr (JDict kvs) \<and> map_of kvs ''package_name'' = None"
  then show "add_nodes_edges py_str dep parent dot = Inl (KeyError ''package_name'')"
    using missing_key_raises(1) by blast
next
  assume "dict_get dep ''package'' dep = Inr (JDict kvs) \<and> map_of kvs ''package_name'' = Some name \<and>
    map_of kvs ''installed_version'' = None"
  then show "add_nodes_edges py_str dep parent dot = Inl (KeyError ''installed_version'')"
    using missing_key_raises(2) by blast
qed

theorem failures_propagate_witness:
  "main (\<lambda>args capture. Inl OSError) loads_empty_list (\<lambda>v. []) = Inl OSError \<and>
   main (\<lambda>args capture. Inr \<lparr>returncode = 0, stdout = ''[{'', stderr = ''''\<rparr>)
     loads_empty_list (\<lambda>v. []) = Inl JSONDecodeError \<and>
   get_pipdeptree_output tool_exits_1 loads_empty_list = Inr (JList []) \<and>
   no_version \<in> set (forest_nodes [pkg_six, no_version]) \<and>
   installed_version_of no_version = None \<and>
   (\<exists>e. create_dependency_graph (\<lambda>v. []) (JList [pkg_six, no_version]) = Inl e) \<and>
   add_nodes_edges (\<lambda>v. []) (JDict []) JNull (Digraph ''png'') = Inl (KeyError ''package_name'') \<and>
   add_nodes_edges (\<lambda>v. []) no_version JNull (Digraph ''png'') = Inl (KeyError ''installed_version'')"
proof -
  note t = failures_propagate
  have 1: "main (\<lambda>args capture. Inl OSError) loads_empty_list (\<lambda>v. []) = Inl OSError"
    using t [of "\<lambda>args capture. Inl OSError" OSError loads_empty_list "\<lambda>v. []"] by simp
  have 2: "main (\<lambda>args capture. Inr \<lparr>returncode = 0, stdout = ''[{'', stderr = ''''\<rparr>)
     loads_empty_list (\<lambda>v. []) = Inl JSONDecodeError"
    using t [of "\<lambda>args capture. Inr \<lparr>returncode = 0, stdout = ''[{'', stderr = ''''\<rparr>"
        JSONDecodeError loads_empty_list "\<lambda>v. []"
        "\<lparr>returncode = 0, stdout = ''[{'', stderr = ''''\<rparr>"]
    by (simp add: loads_empty_list_def)
  have 3: "get_pipdeptree_output tool_exits_1 loads_empty_list = Inr (JList [])"
    using t [of tool_exits_1 _ loads_empty_list _
        "\<lparr>returncode = 1, stdout = ''[]'', stderr = ''warning''\<rparr>"]
    by (simp add: tool_exits_1_def loads_empty_list_def)
  have 4: "no_version \<in> set (forest_nodes [pkg_six, no_version])"
    by (simp add: forest_nodes_def tree_nodes_self)
  have 5: "installed_version_of no_version = None"
    by code_simp
  have 6: "\<exists>e. create_dependency_graph (\<lambda>v. []) (JList [pkg_six, no_version]) = Inl e"
    using t [of _ _ _ "\<lambda>v. []" _ no_version "[pkg_six, no_version]"] 4 5 by blast
  have d1: "dict_get (JDict []) ''package'' (JDict []) = Inr (JDict [])"
    by (simp add: dict_get_def)
  have 7: "add_nodes_edges (\<lambda>v. []) (JDict []) JNull (Digraph ''png'') = Inl (KeyError ''package_name'')"
    using t [of _ _ _ "\<lambda>v. []" _ _ _ "JDict []" "[]" JNull "Digraph ''png''"] d1 by simp
  have d2: "dict_get no_version ''package'' no_version = Inr (JDict [(''package_name'', JStr ''six'')])"
    by (simp add: dict_get_def no_version_def)
  have 8: "add_nodes_edges (\<lambda>v. []) no_version JNull (Digraph ''png'') = Inl (KeyError ''installed_version'')"
    using t [of _ _ _ "\<lambda>v. []" _ _ _ no_version "[(''package_name'', JStr ''six'')]" JNull
        "Digraph ''png''" "JStr ''six''"] d2 by simp
  show ?thesis by (intro conjI) (rule 1 2 3 4 5 6 7 8)+
qed

theorem failures_propagate_counterexample:
  "tool_exits_1 [''pipdeptree'', ''--json''] True =
     Inr \<lparr>returncode = 1, stdout = ''[]'', stderr = ''warning''\<rparr> \<and>
   main tool_exits_1 loads_empty_list (\<lambda>v. []) =
     Inr \<lparr>graph = \<lparr>format = ''png'', body = []\<rparr>, filename = ''dependencies'', view = False\<rparr> \<and>
   subscript pkg_six ''package_name'' = Inl (KeyError ''package_name'') \<and>
   subscript pkg_six ''installed_version'' = Inl (KeyError ''installed_version'') \<and>
   create_dependency_graph (\<lambda>v. []) (JList [pkg_six]) =
     Inr \<lparr>graph = \<lparr>format = ''png'', body = [Node (JStr ''six'') ''six\<newline>1.16.0'']\<rparr>,
          filename = ''dependencies'', view = False\<rparr>"
proof (intro conjI)
  show "tool_exits_1 [''pipdeptree'', ''--json''] True =
     Inr \<lparr>returncode = 1, stdout = ''[]'', stderr = ''warning''\<rparr>"
    by (simp add: tool_exits_1_def)
  show "main tool_exits_1 loads_empty_list (\<lambda>v. []) =
     Inr \<lparr>graph = \<lparr>format = ''png'', body = []\<rparr>, filename = ''dependencies'', view = False\<rparr>"
    by code_simp
  show "subscript pkg_six ''package_name'' = Inl (KeyError ''package_name'')"
    by code_simp
  show "subscript pkg_six ''installed_version'' = Inl (KeyError ''installed_version'')"
    by code_simp
  show "create_dependency_graph (\<lambda>v. []) (JList [pkg_six]) =
     Inr \<lparr>graph = \<lparr>format = ''png'', body = [Node (JStr ''six'') ''six\<newline>1.16.0'']\<rparr>,
          filename = ''dependencies'', view = False\<rparr>"
    by code_simp
qed

text \<open>
  C5, as amended. Under every runtime and with every number of frames, on every
  list the walk gets through, the empty list included, \<open>create_dependency_graph\<close>
  calls \<^verbatim>\<open>render\<close> on the PNG-format graph the whole walk has built, with base
  filename \<^verbatim>\<open>dependencies\<close> and viewing off, and what that call does is the
  result: the rendering when \<^verbatim>\<open>render\<close> raises nothing, its exception
  otherwise. Whenever the function returns it has done exactly that; when the walk
  raises, the exception is the result and \<^verbatim>\<open>render\<close> is not called.
\<close>

theorem render_after_walk:
  "(iterate dependencies = Inr deps \<and>
    add_each_rt rt frames deps JNull (Digraph ''png'') = Inr dot' \<longrightarrow>
      format dot' = ''png'' \<and>
      create_dependency_graph_rt rt frames dependencies =
        render_rt rt ''dependencies'' False dot') \<and>
   create_dependency_graph_rt rt frames (JList []) =
     render_rt rt ''dependencies'' False \<lparr>format = ''png'', body = []\<rparr> \<and>
   (render_raises rt \<lparr>graph = g, filename = ''dependencies'', view = False\<rparr> = None \<longrightarrow>
      render_rt rt ''dependencies'' False g =
        Inr \<lparr>graph = g, filename = ''dependencies'', view = False\<rparr>) \<and>
   (create_dependency_graph_rt rt frames dependencies = Inr r \<longrightarrow>
      filename r = ''dependencies'' \<and> \<not> view r \<and> format (graph r) = ''png'' \<and>
      render_raises rt r = None \<and>
      (\<exists>ds. iterate dependencies = Inr ds \<and>
         add_each_rt rt frames ds JNull (Digraph ''png'') = Inr (graph r))) \<and>
   (iterate dependencies = Inr deps \<and>
    add_each_rt rt frames deps JNull (Digraph ''png'') = Inl e \<longrightarrow>
      create_dependency_graph_rt rt frames dependencies = Inl e)"
proof (intro conjI impI)
  assume a: "iterate dependencies = Inr deps \<and>
    add_each_rt rt frames deps JNull (Digraph ''png'') = Inr dot'"
  then have w: "add_each_rt rt frames deps JNull (Digraph ''png'') = Inr dot'" by simp
  from rt_keeps_format [OF w] show "format dot' = ''png''" by (simp add: Digraph_def)
  from a show "create_dependency_graph_rt rt frames dependencies =
        render_rt rt ''dependencies'' False dot'"
    by (simp add: create_dependency_graph_rt_def)
next
  show "create_dependency_graph_rt rt frames (JList []) =
     render_rt rt ''dependencies'' False \<lparr>format = ''png'', body = []\<rparr>"
    by (simp add: create_dependency_graph_rt_def iterate_def Digraph_def)
next
  assume "render_raises rt \<lparr>graph = g, filename = ''dependencies'', view = False\<rparr> = None"
  then show "render_rt rt ''dependencies'' False g =
        Inr \<lparr>graph = g, filename = ''dependencies'', view = False\<rparr>"
    by (simp add: render_rt_def render_def)
next
  assume a: "create_dependency_graph_rt rt frames dependencies = Inr r"
  then obtain ds dot' where i: "iterate dependencies = Inr ds"
    and w: "add_each_rt rt frames ds JNull (Digraph ''png'') = Inr dot'"
    and rr: "render_rt rt ''dependencies'' False dot' = Inr r"
    by (auto simp: create_dependency_graph_rt_def Let_def split: sum.splits)
  from rr have r: "r = render ''dependencies'' False dot'"
    and ok: "render_raises rt (render ''dependencies'' False dot') = None"
    by (auto simp: render_rt_def split: option.splits)
  from rt_keeps_format [OF w] have f: "format dot' = ''png''" by (simp add: Digraph_def)
  from r show "filename r = ''dependencies''" by (simp add: render_def)
  from r show "\<not> view r" by (simp add: render_def)
  from r f show "format (graph r) = ''png''" by (simp add: render_def)
  from r ok show "render_raises rt r = None" by simp
  from i w r show "\<exists>ds. iterate dependencies = Inr ds \<and>
         add_each_rt rt frames ds JNull (Digraph ''png'') = Inr (graph r)"
    by (simp add: render_def)
next
  assume "iterate dependencies = Inr deps \<and>
    add_each_rt rt frames deps JNull (Digraph ''png'') = Inl e"
  then show "create_dependency_graph_rt rt frames dependencies = Inl e"
    by (simp add: create_dependency_graph_rt_def)
qed

theorem render_after_walk_witness:
  "iterate (JList [pkg_dateutil, pkg_six]) = Inr [pkg_dateutil, pkg_six] \<and>
   add_each_rt graphviz_rt 2 [pkg_dateutil, pkg_six] JNull (Digraph ''png'')
     = Inr (graph example_rendering) \<and>
   render_raises graphviz_rt example_rendering = None \<and>
   create_dependency_graph_rt graphviz_rt 2 (JList [pkg_dateutil, pkg_six]) = Inr example_rendering \<and>
   filename example_rendering = ''dependencies'' \<and>
   view example_rendering = False \<and>
   format (graph example_rendering) = ''png'' \<and>
   create_dependency_graph_rt no_dot_rt 2 (JList []) = Inl ExecutableNotFound \<and>
   iterate (JList [no_version]) = Inr [no_version] \<and>
   add_each_rt graphviz_rt 2 [no_version] JNull (Digraph ''png'')
     = Inl (KeyError ''installed_version'') \<and>
   create_dependency_graph_rt graphviz_rt 2 (JList [no_version])
     = Inl (KeyError ''installed_version'')"
proof -
  note t = render_after_walk
  have 1: "iterate (JList [pkg_dateutil, pkg_six]) = Inr [pkg_dateutil, pkg_six]"
    by (simp add: iterate_def)
  have 2: "add_each_rt graphviz_rt 2 [pkg_dateutil, pkg_six] JNull (Digraph ''png'')
     = Inr (graph example_rendering)"
    by code_simp
  have 3: "render_raises graphviz_rt example_rendering = None"
    by (simp add: graphviz_rt_def)
  have g: "\<lparr>graph = graph example_rendering, filename = ''dependencies'', view = False\<rparr>
      = example_rendering"
    by (simp add: example_rendering_def)
  note u = t [of "JList [pkg_dateutil, pkg_six]" "[pkg_dateutil, pkg_six]" graphviz_rt 2
      "graph example_rendering" "graph example_rendering" example_rendering]
  from u 1 2 have a: "create_dependency_graph_rt graphviz_rt 2 (JList [pkg_dateutil, pkg_six])
     = render_rt graphviz_rt ''dependencies'' False (graph example_rendering)"
    by blast
  from u 3 g have b: "render_rt graphviz_rt ''dependencies'' False (graph example_rendering)
     = Inr example_rendering"
    by (simp only:)
  from a b have 4: "create_dependency_graph_rt graphviz_rt 2 (JList [pkg_dateutil, pkg_six])
     = Inr example_rendering"
    by (simp only:)
  from u 4 have 5: "filename example_rendering = ''dependencies''"
    and 6: "view example_rendering = False"
    and 7: "format (graph example_rendering) = ''png''"
    by blast+
  have r: "render_rt no_dot_rt ''dependencies'' False \<lparr>format = ''png'', body = []\<rparr>
      = Inl ExecutableNotFound"
    by (simp add: render_rt_def no_dot_rt_def)
  from t [of _ _ no_dot_rt 2] r
  have 8: "create_dependency_graph_rt no_dot_rt 2 (JList []) = Inl ExecutableNotFound"
    by (simp only:)
  have 9: "iterate (JList [no_version]) = Inr [no_version]" by (simp add: iterate_def)
  have 10: "add_each_rt graphviz_rt 2 [no_version] JNull (Digraph ''png'')
     = Inl (KeyError ''installed_version'')"
    by code_simp
  from t [of "JList [no_version]" "[no_version]" graphviz_rt 2 _ _ _ "KeyError ''installed_version''"]
    9 10
  have 11: "create_dependency_graph_rt graphviz_rt 2 (JList [no_version])
     = Inl (KeyError ''installed_version'')"
    by blast
  show ?thesis by (intro conjI) (rule 1 2 3 4 5 6 7 8 9 10 11)+
qed

theorem render_after_walk_counterexample:
  "create_dependency_graph (\<lambda>v. []) (JList [JDict []]) = Inl (KeyError ''package_name'') \<and>
   create_dependency_graph_rt graphviz_rt 2 (JList [JDict []]) = Inl (KeyError ''package_name'')"
  by (intro conjI) code_simp+




text \<open>
  C7. The walk is defined by well-founded recursion: every element the loop of
  \<open>add_nodes_edges\<close> runs through is strictly smaller than the node, and a call
  whose reads succeed continues with exactly those elements and recurses nowhere
  else. A call that returns has appended one node statement for each node of the
  tree below its argument, in the order parents first, left to right: every tree
  node is visited once.
\<close>

theorem walk_terminates_visiting_once:
  "(\<forall>sub \<in> set (sub_deps dep). size sub < size dep) \<and>
   (package_name_of dep = Some name \<and> installed_version_of dep = Some version \<and>
    deps_iterable dep \<longrightarrow>
      add_nodes_edges py_str dep parent dot =
        add_each py_str (sub_deps dep) name
          (dot\<lparr>body := body dot @ Node name (node_label py_str name version)
                     # (if truthy parent then [Edge parent name] else [])\<rparr>)) \<and>
   (add_nodes_edges py_str dep parent dot = Inr dot' \<longrightarrow>
      (\<exists>visits. node_stmts (body dot') = node_stmts (body dot) @ visits \<and>
         map Some visits = map (node_entry py_str) (tree_nodes dep) \<and>
         length visits = length (tree_nodes dep)))"
proof (intro conjI impI ballI)
  fix sub assume "sub \<in> set (sub_deps dep)"
  then show "size sub < size dep" by (rule size_sub_deps)
next
  assume "package_name_of dep = Some name \<and> installed_version_of dep = Some version \<and>
    deps_iterable dep"
  then show "add_nodes_edges py_str dep parent dot =
        add_each py_str (sub_deps dep) name
          (dot\<lparr>body := body dot @ Node name (node_label py_str name version)
                     # (if truthy parent then [Edge parent name] else [])\<rparr>)"
    using add_nodes_edges_ok by blast
next
  assume "add_nodes_edges py_str dep parent dot = Inr dot'"
  from walk_visits [OF this] obtain visits
    where a: "node_stmts (body dot') = node_stmts (body dot) @ visits"
      and b: "map Some visits = map (node_entry py_str) (tree_nodes dep)" by blast
  from b have "length (map Some visits) = length (map (node_entry py_str) (tree_nodes dep))"
    by simp
  then have "length visits = length (tree_nodes dep)" by simp
  with a b show "\<exists>visits. node_stmts (body dot') = node_stmts (body dot) @ visits \<and>
         map Some visits = map (node_entry py_str) (tree_nodes dep) \<and>
         length visits = length (tree_nodes dep)" by blast
qed

theorem walk_terminates_visiting_once_witness:
  "dep_six \<in> set (sub_deps pkg_dateutil) \<and> size dep_six < size pkg_dateutil \<and>
   package_name_of pkg_dateutil = Some (JStr ''python-dateutil'') \<and>
   installed_version_of pkg_dateutil = Some (JStr ''2.9.0'') \<and>
   deps_iterable pkg_dateutil \<and>
   add_nodes_edges (\<lambda>v. []) pkg_dateutil JNull (Digraph ''png'') =
     add_each (\<lambda>v. []) [dep_six] (JStr ''python-dateutil'')
       \<lparr>format = ''png'',
          body = [Node (JStr ''python-dateutil'') ''python-dateutil\<newline>2.9.0'']\<rparr> \<and>
   add_nodes_edges (\<lambda>v. []) pkg_dateutil JNull (Digraph ''png'') =
     Inr \<lparr>format = ''png'',
          body = [Node (JStr ''python-dateutil'') ''python-dateutil\<newline>2.9.0'',
                  Node (JStr ''six'') ''six\<newline>1.16.0'',
                  Edge (JStr ''python-dateutil'') (JStr ''six'')]\<rparr> \<and>
   tree_nodes pkg_dateutil = [pkg_dateutil, dep_six] \<and>
   (\<exists>visits. node_stmts [Node (JStr ''python-dateutil'') ''python-dateutil\<newline>2.9.0'',
                  Node (JStr ''six'') ''six\<newline>1.16.0'',
                  Edge (JStr ''python-dateutil'') (JStr ''six'')] = visits \<and>
      map Some visits = map (node_entry (\<lambda>v. [])) (tree_nodes pkg_dateutil) \<and>
      length visits = length (tree_nodes pkg_dateutil))"
proof -
  note t = walk_terminates_visiting_once [of pkg_dateutil "JStr ''python-dateutil''"
      "JStr ''2.9.0''" "\<lambda>v. []" JNull "Digraph ''png''"
      "\<lparr>format = ''png'',
          body = [Node (JStr ''python-dateutil'') ''python-dateutil\<newline>2.9.0'',
                  Node (JStr ''six'') ''six\<newline>1.16.0'',
                  Edge (JStr ''python-dateutil'') (JStr ''six'')]\<rparr>"]
  have 1: "dep_six \<in> set (sub_deps pkg_dateutil)" by (simp add: sub_deps_pkg_dateutil)
  from t 1 have 2: "size dep_six < size pkg_dateutil" by blast
  have n: "package_name_of pkg_dateutil = Some (JStr ''python-dateutil'')" by code_simp
  have v: "installed_version_of pkg_dateutil = Some (JStr ''2.9.0'')" by code_simp
  have i: "deps_iterable pkg_dateutil" by code_simp
  from t n v i have c: "add_nodes_edges (\<lambda>v. []) pkg_dateutil JNull (Digraph ''png'') =
     add_each (\<lambda>v. []) [dep_six] (JStr ''python-dateutil'')
       \<lparr>format = ''png'',
          body = [Node (JStr ''python-dateutil'') ''python-dateutil\<newline>2.9.0'']\<rparr>"
    by (simp add: sub_deps_pkg_dateutil Digraph_def node_label_def format_value_def)
  have 3: "add_nodes_edges (\<lambda>v. []) pkg_dateutil JNull (Digraph ''png'') =
     Inr \<lparr>format = ''png'',
          body = [Node (JStr ''python-dateutil'') ''python-dateutil\<newline>2.9.0'',
                  Node (JStr ''six'') ''six\<newline>1.16.0'',
                  Edge (JStr ''python-dateutil'') (JStr ''six'')]\<rparr>"
    by code_simp
  have 4: "tree_nodes pkg_dateutil = [pkg_dateutil, dep_six]"
    by (simp add: tree_nodes.simps [of pkg_dateutil] tree_nodes.simps [of dep_six]
        sub_deps_pkg_dateutil sub_deps_dep_six)
  from t 3 have 5: "\<exists>visits. node_stmts [Node (JStr ''python-dateutil'') ''python-dateutil\<newline>2.9.0'',
                  Node (JStr ''six'') ''six\<newline>1.16.0'',
                  Edge (JStr ''python-dateutil'') (JStr ''six'')] = visits \<and>
      map Some visits = map (node_entry (\<lambda>v. [])) (tree_nodes pkg_dateutil) \<and>
      length visits = length (tree_nodes pkg_dateutil)"
    by (simp add: Digraph_def)
  show ?thesis by (intro conjI) (rule 1 2 n v i c 3 4 5)+
qed

text \<open>
  C8. Two nodes of the tree with the same package name are emitted under the same
  identifier, that name, each with the label of its own version; so the rendered
  graph has as many node identifiers as the tree has distinct package names.
\<close>

theorem one_node_per_name:
  assumes "create_dependency_graph py_str (JList deps) = Inr r"
  shows "(\<forall>d1 \<in> set (forest_nodes deps). \<forall>d2 \<in> set (forest_nodes deps).
      package_name_of d1 = package_name_of d2 \<longrightarrow>
      (\<exists>n v1 v2. package_name_of d1 = Some n \<and> package_name_of d2 = Some n \<and>
         installed_version_of d1 = Some v1 \<and> installed_version_of d2 = Some v2 \<and>
         (n, node_label py_str n v1) \<in> set (node_stmts (body (graph r))) \<and>
         (n, node_label py_str n v2) \<in> set (node_stmts (body (graph r))))) \<and>
    card (node_ids (graph r)) = card (package_name_of ` set (forest_nodes deps))"
proof -
  from create_dependency_graph_Inr [OF assms]
  have w: "list_all walkable deps"
    and b: "body (graph r) = concat (map (\<lambda>d. emitted py_str d JNull) deps)"
    by simp_all
  from forest_node_stmts [OF w, of py_str JNull] b
  have eq: "map Some (node_stmts (body (graph r))) = map (node_entry py_str) (forest_nodes deps)"
    by simp
  have same: "\<exists>n v1 v2. package_name_of d1 = Some n \<and> package_name_of d2 = Some n \<and>
         installed_version_of d1 = Some v1 \<and> installed_version_of d2 = Some v2 \<and>
         (n, node_label py_str n v1) \<in> set (node_stmts (body (graph r))) \<and>
         (n, node_label py_str n v2) \<in> set (node_stmts (body (graph r)))"
    if d1: "d1 \<in> set (forest_nodes deps)" and d2: "d2 \<in> set (forest_nodes deps)"
      and s: "package_name_of d1 = package_name_of d2" for d1 d2
  proof -
    from forest_node_emitted [OF w eq d1] obtain n v1 where 1: "package_name_of d1 = Some n"
      "installed_version_of d1 = Some v1"
      "(n, node_label py_str n v1) \<in> set (node_stmts (body (graph r)))" by blast
    from forest_node_emitted [OF w eq d2] obtain n' v2 where 2: "package_name_of d2 = Some n'"
      "installed_version_of d2 = Some v2"
      "(n', node_label py_str n' v2) \<in> set (node_stmts (body (graph r)))" by blast
    from 1(1) 2(1) s have "n' = n" by simp
    with 1 2 show ?thesis by blast
  qed
  from forest_node_ids [OF w eq]
  have ids: "node_ids (graph r) = {n. \<exists>d \<in> set (forest_nodes deps). package_name_of d = Some n}"
    by (simp add: node_ids_def)
  have "package_name_of ` set (forest_nodes deps) = Some ` node_ids (graph r)"
  proof (intro set_eqI iffI)
    fix x assume "x \<in> package_name_of ` set (forest_nodes deps)"
    then obtain d where d: "d \<in> set (forest_nodes deps)" and x: "x = package_name_of d" by auto
    from forest_node_emitted [OF w eq d] obtain n where "package_name_of d = Some n" by blast
    with d x ids show "x \<in> Some ` node_ids (graph r)" by auto
  next
    fix x assume "x \<in> Some ` node_ids (graph r)"
    with ids show "x \<in> package_name_of ` set (forest_nodes deps)" by force
  qed
  then have "card (package_name_of ` set (forest_nodes deps)) = card (node_ids (graph r))"
    by (simp add: card_image)
  with same show ?thesis by simp
qed

theorem one_node_per_name_witness:
  "create_dependency_graph (\<lambda>v. []) (JList [pkg_dateutil, old_six]) =
     Inr \<lparr>graph = \<lparr>format = ''png'',
            body = [Node (JStr ''python-dateutil'') ''python-dateutil\<newline>2.9.0'',
                    Node (JStr ''six'') ''six\<newline>1.16.0'',
                    Edge (JStr ''python-dateutil'') (JStr ''six''),
                    Node (JStr ''six'') ''six\<newline>1.15.0'']\<rparr>,
          filename = ''dependencies'', view = False\<rparr> \<and>
   dep_six \<in> set (forest_nodes [pkg_dateutil, old_six]) \<and>
   old_six \<in> set (forest_nodes [pkg_dateutil, old_six]) \<and>
   package_name_of dep_six = package_name_of old_six \<and>
   installed_version_of dep_six = Some (JStr ''1.16.0'') \<and>
   installed_version_of old_six = Some (JStr ''1.15.0'') \<and>
   (\<exists>n v1 v2. package_name_of dep_six = Some n \<and> package_name_of old_six = Some n \<and>
      installed_version_of dep_six = Some v1 \<and> installed_version_of old_six = Some v2 \<and>
      (n, node_label (\<lambda>v. []) n v1)
        \<in> set (node_stmts [Node (JStr ''python-dateutil'') ''python-dateutil\<newline>2.9.0'',
                    Node (JStr ''six'') ''six\<newline>1.16.0'',
                    Edge (JStr ''python-dateutil'') (JStr ''six''),
                    Node (JStr ''six'') ''six\<newline>1.15.0'']) \<and>
      (n, node_label (\<lambda>v. []) n v2)
        \<in> set (node_stmts [Node (JStr ''python-dateutil'') ''python-dateutil\<newline>2.9.0'',
                    Node (JStr ''six'') ''six\<newline>1.16.0'',
                    Edge (JStr ''python-dateutil'') (JStr ''six''),
                    Node (JStr ''six'') ''six\<newline>1.15.0''])) \<and>
   card (package_name_of ` set (forest_nodes [pkg_dateutil, old_six])) = 2 \<and>
   length (forest_nodes [pkg_dateutil, old_six]) = 3"
proof -
  have h: "create_dependency_graph (\<lambda>v. []) (JList [pkg_dateutil, old_six]) =
     Inr \<lparr>graph = \<lparr>format = ''png'',
            body = [Node (JStr ''python-dateutil'') ''python-dateutil\<newline>2.9.0'',
                    Node (JStr ''six'') ''six\<newline>1.16.0'',
                    Edge (JStr ''python-dateutil'') (JStr ''six''),
                    Node (JStr ''six'') ''six\<newline>1.15.0'']\<rparr>,
          filename = ''dependencies'', view = False\<rparr>"
    by code_simp
  note t = one_node_per_name [OF h]
  have 1: "dep_six \<in> set (forest_nodes [pkg_dateutil, old_six])"
    and 2: "old_six \<in> set (forest_nodes [pkg_dateutil, old_six])"
    by (simp_all add: forest_nodes_two_versions)
  have 3: "package_name_of dep_six = package_name_of old_six" by code_simp
  have 4: "installed_version_of dep_six = Some (JStr ''1.16.0'')" by code_simp
  have 5: "installed_version_of old_six = Some (JStr ''1.15.0'')" by code_simp
  from t 1 2 3 have 6: "\<exists>n v1 v2. package_name_of dep_six = Some n \<and> package_name_of old_six = Some n \<and>
      installed_version_of dep_six = Some v1 \<and> installed_version_of old_six = Some v2 \<and>
      (n, node_label (\<lambda>v. []) n v1)
        \<in> set (node_stmts [Node (JStr ''python-dateutil'') ''python-dateutil\<newline>2.9.0'',
                    Node (JStr ''six'') ''six\<newline>1.16.0'',
                    Edge (JStr ''python-dateutil'') (JStr ''six''),
                    Node (JStr ''six'') ''six\<newline>1.15.0'']) \<and>
      (n, node_label (\<lambda>v. []) n v2)
        \<in> set (node_stmts [Node (JStr ''python-dateutil'') ''python-dateutil\<newline>2.9.0'',
                    Node (JStr ''six'') ''six\<newline>1.16.0'',
                    Edge (JStr ''python-dateutil'') (JStr ''six''),
                    Node (JStr ''six'') ''six\<newline>1.15.0''])"
    by simp
  have "card (node_ids \<lparr>format = ''png'',
            body = [Node (JStr ''python-dateutil'') ''python-dateutil\<newline>2.9.0'',
                    Node (JStr ''six'') ''six\<newline>1.16.0'',
                    Edge (JStr ''python-dateutil'') (JStr ''six''),
                    Node (JStr ''six'') ''six\<newline>1.15.0'']\<rparr>) = 2"
    by (simp add: node_ids_def)
  with t have 7: "card (package_name_of ` set (forest_nodes [pkg_dateutil, old_six])) = 2"
    by simp
  have 8: "length (forest_nodes [pkg_dateutil, old_six]) = 3"
    by (simp add: forest_nodes_two_versions)
  show ?thesis by (intro conjI) (rule h 1 2 3 4 5 6 7 8)+
qed

text \<open>
  C9. When a node of the tree has the empty string as package name, the rendered
  graph has no edge whose tail is the empty string, while each of the node's
  children still has its node statement.
\<close>

theorem empty_name_gives_no_edges:
  assumes "create_dependency_graph py_str (JList deps) = Inr r"
    and "d \<in> set (forest_nodes deps)"
    and "package_name_of d = Some (JStr '''')"
  shows "(\<forall>h. (JStr '''', h) \<notin> edges (graph r)) \<and>
    (\<forall>c \<in> set (sub_deps d). \<exists>n v. package_name_of c = Some n \<and>
       installed_version_of c = Some v \<and>
       (n, node_label py_str n v) \<in> set (node_stmts (body (graph r))))"
proof -
  from create_dependency_graph_Inr [OF assms(1)]
  have w: "list_all walkable deps"
    and b: "body (graph r) = concat (map (\<lambda>d. emitted py_str d JNull) deps)"
    by simp_all
  from forest_node_stmts [OF w, of py_str JNull] b
  have eq: "map Some (node_stmts (body (graph r))) = map (node_entry py_str) (forest_nodes deps)"
    by simp
  from forest_edge_stmts [OF w, of py_str] b
  have "edges (graph r) = named_edges (forest_edges deps)" by (simp add: edges_def)
  then have "(JStr '''', h) \<notin> edges (graph r)" for h
    using named_edges_truthy [of "JStr ''''" h "forest_edges deps"] by auto
  moreover have "\<exists>n v. package_name_of c = Some n \<and> installed_version_of c = Some v \<and>
       (n, node_label py_str n v) \<in> set (node_stmts (body (graph r)))"
    if "c \<in> set (sub_deps d)" for c
    using forest_node_emitted [OF w eq forest_nodes_sub [OF assms(2) that]] .
  ultimately show ?thesis by blast
qed

theorem empty_name_gives_no_edges_witness:
  "create_dependency_graph (\<lambda>v. []) (JList [unnamed_parent]) =
     Inr \<lparr>graph = \<lparr>format = ''png'',
            body = [Node (JStr '''') ''\<newline>1.0'', Node (JStr ''six'') ''six\<newline>1.16.0'']\<rparr>,
          filename = ''dependencies'', view = False\<rparr> \<and>
   unnamed_parent \<in> set (forest_nodes [unnamed_parent]) \<and>
   package_name_of unnamed_parent = Some (JStr '''') \<and>
   dep_six \<in> set (sub_deps unnamed_parent) \<and>
   (JStr '''', JStr ''six'')
     \<notin> edges \<lparr>format = ''png'',
            body = [Node (JStr '''') ''\<newline>1.0'', Node (JStr ''six'') ''six\<newline>1.16.0'']\<rparr> \<and>
   (\<exists>n v. package_name_of dep_six = Some n \<and> installed_version_of dep_six = Some v \<and>
      (n, node_label (\<lambda>v. []) n v)
        \<in> set (node_stmts [Node (JStr '''') ''\<newline>1.0'', Node (JStr ''six'') ''six\<newline>1.16.0'']))"
proof -
  have h: "create_dependency_graph (\<lambda>v. []) (JList [unnamed_parent]) =
     Inr \<lparr>graph = \<lparr>format = ''png'',
            body = [Node (JStr '''') ''\<newline>1.0'', Node (JStr ''six'') ''six\<newline>1.16.0'']\<rparr>,
          filename = ''dependencies'', view = False\<rparr>"
    by code_simp
  have 1: "unnamed_parent \<in> set (forest_nodes [unnamed_parent])"
    by (simp add: forest_nodes_def tree_nodes_self)
  have 2: "package_name_of unnamed_parent = Some (JStr '''')" by code_simp
  have 3: "dep_six \<in> set (sub_deps unnamed_parent)" by (simp add: sub_deps_unnamed_parent)
  note t = empty_name_gives_no_edges [OF h 1 2]
  from t have 4: "(JStr '''', JStr ''six'')
     \<notin> edges \<lparr>format = ''png'',
            body = [Node (JStr '''') ''\<newline>1.0'', Node (JStr ''six'') ''six\<newline>1.16.0'']\<rparr>"
    by simp
  from t 3 have 5: "\<exists>n v. package_name_of dep_six = Some n \<and> installed_version_of dep_six = Some v \<and>
      (n, node_label (\<lambda>v. []) n v)
        \<in> set (node_stmts [Node (JStr '''') ''\<newline>1.0'', Node (JStr ''six'') ''six\<newline>1.16.0''])"
    by simp
  show ?thesis by (intro conjI) (rule h 1 2 3 4 5)+
qed

text \<open>
  C10. \<^verbatim>\<open>dep.get("package", dep)\<close> is the value under \<^verbatim>\<open>package\<close> when the node
  has that key and the node itself otherwise; the walk depends on a node only
  through the two fields read from that dictionary and through the node's own
  \<^verbatim>\<open>dependencies\<close>; so a node that keeps its fields under \<^verbatim>\<open>package\<close> and the
  flat node with the same fields and dependencies are walked alike.
\<close>

theorem two_node_shapes:
  "(map_of kvs ''package'' = Some data \<longrightarrow>
      dict_get (JDict kvs) ''package'' (JDict kvs) = Inr data) \<and>
   (map_of kvs ''package'' = None \<longrightarrow>
      dict_get (JDict kvs) ''package'' (JDict kvs) = Inr (JDict kvs)) \<and>
   (dict_get d1 ''package'' d1 = Inr data1 \<and> dict_get d2 ''package'' d2 = Inr data2 \<and>
    subscript data1 ''package_name'' = subscript data2 ''package_name'' \<and>
    subscript data1 ''installed_version'' = subscript data2 ''installed_version'' \<and>
    dict_get d1 ''dependencies'' (JList []) = dict_get d2 ''dependencies'' (JList []) \<longrightarrow>
      add_nodes_edges py_str d1 parent dot = add_nodes_edges py_str d2 parent dot) \<and>
   (''package'' \<notin> fst ` set items \<and> ''dependencies'' \<notin> fst ` set items \<longrightarrow>
      add_nodes_edges py_str (JDict [(''package'', JDict items), (''dependencies'', deps)]) parent dot
        = add_nodes_edges py_str (JDict (items @ [(''dependencies'', deps)])) parent dot)"
proof (intro conjI impI)
  assume "map_of kvs ''package'' = Some data"
  then show "dict_get (JDict kvs) ''package'' (JDict kvs) = Inr data" by (simp add: dict_get_def)
next
  assume "map_of kvs ''package'' = None"
  then show "dict_get (JDict kvs) ''package'' (JDict kvs) = Inr (JDict kvs)"
    by (simp add: dict_get_def)
next
  assume "dict_get d1 ''package'' d1 = Inr data1 \<and> dict_get d2 ''package'' d2 = Inr data2 \<and>
    subscript data1 ''package_name'' = subscript data2 ''package_name'' \<and>
    subscript data1 ''installed_version'' = subscript data2 ''installed_version'' \<and>
    dict_get d1 ''dependencies'' (JList []) = dict_get d2 ''dependencies'' (JList [])"
  then show "add_nodes_edges py_str d1 parent dot = add_nodes_edges py_str d2 parent dot"
    using same_reads_same_walk by blast
next
  assume a: "''package'' \<notin> fst ` set items \<and> ''dependencies'' \<notin> fst ` set items"
  then have p: "map_of items ''package'' = None" and d: "map_of items ''dependencies'' = None"
    by (simp_all add: map_of_eq_None_iff)
  let ?nested = "JDict [(''package'', JDict items), (''dependencies'', deps)]"
  let ?flat = "JDict (items @ [(''dependencies'', deps)])"
  have 1: "dict_get ?nested ''package'' ?nested = Inr (JDict items)"
    by (simp add: dict_get_def)
  have 2: "dict_get ?flat ''package'' ?flat = Inr ?flat"
    using p by (simp add: dict_get_def map_of_with_dependencies del: map_of_append)
  have 3: "subscript (JDict items) ''package_name'' = subscript ?flat ''package_name''"
    by (simp add: subscript_def map_of_with_dependencies del: map_of_append split: option.splits)
  have 4: "subscript (JDict items) ''installed_version'' = subscript ?flat ''installed_version''"
    by (simp add: subscript_def map_of_with_dependencies del: map_of_append split: option.splits)
  have 5: "dict_get ?nested ''dependencies'' (JList []) = dict_get ?flat ''dependencies'' (JList [])"
    using d by (simp add: dict_get_def map_of_with_dependencies del: map_of_append)
  from same_reads_same_walk [OF 1 2 3 4 5]
  show "add_nodes_edges py_str ?nested parent dot = add_nodes_edges py_str ?flat parent dot" .
qed

theorem two_node_shapes_witness:
  "''package'' \<notin> fst ` set [(''key'', JStr ''six''), (''package_name'', JStr ''six''),
      (''installed_version'', JStr ''1.16.0'')] \<and>
   ''dependencies'' \<notin> fst ` set [(''key'', JStr ''six''), (''package_name'', JStr ''six''),
      (''installed_version'', JStr ''1.16.0'')] \<and>
   add_nodes_edges (\<lambda>v. []) pkg_six JNull (Digraph ''png'') =
     add_nodes_edges (\<lambda>v. []) flat_six JNull (Digraph ''png'') \<and>
   add_nodes_edges (\<lambda>v. []) flat_six JNull (Digraph ''png'') =
     Inr \<lparr>format = ''png'', body = [Node (JStr ''six'') ''six\<newline>1.16.0'']\<rparr> \<and>
   dict_get pkg_six ''package'' pkg_six =
     Inr (JDict [(''key'', JStr ''six''), (''package_name'', JStr ''six''),
       (''installed_version'', JStr ''1.16.0'')]) \<and>
   dict_get flat_six ''package'' flat_six = Inr flat_six \<and>
   subscript (JDict [(''key'', JStr ''six''), (''package_name'', JStr ''six''),
       (''installed_version'', JStr ''1.16.0'')]) ''package_name'' =
     subscript dep_six ''package_name'' \<and>
   subscript (JDict [(''key'', JStr ''six''), (''package_name'', JStr ''six''),
       (''installed_version'', JStr ''1.16.0'')]) ''installed_version'' =
     subscript dep_six ''installed_version'' \<and>
   dict_get pkg_six ''dependencies'' (JList []) = dict_get dep_six ''dependencies'' (JList []) \<and>
   add_nodes_edges (\<lambda>v. []) pkg_six (JStr ''python-dateutil'') (Digraph ''png'') =
     add_nodes_edges (\<lambda>v. []) dep_six (JStr ''python-dateutil'') (Digraph ''png'')"
proof -
  note t = two_node_shapes
  have 1: "''package'' \<notin> fst ` set [(''key'', JStr ''six''), (''package_name'', JStr ''six''),
      (''installed_version'', JStr ''1.16.0'')]" by simp
  have 2: "''dependencies'' \<notin> fst ` set [(''key'', JStr ''six''), (''package_name'', JStr ''six''),
      (''installed_version'', JStr ''1.16.0'')]" by simp
  from t [of _ _ _ _ _ _ "\<lambda>v. []" JNull "Digraph ''png''"
      "[(''key'', JStr ''six''), (''package_name'', JStr ''six''),
        (''installed_version'', JStr ''1.16.0'')]" "JList []"] 1 2
  have 3: "add_nodes_edges (\<lambda>v. []) pkg_six JNull (Digraph ''png'') =
     add_nodes_edges (\<lambda>v. []) flat_six JNull (Digraph ''png'')"
    by (simp add: pkg_six_def flat_six_def)
  have 4: "add_nodes_edges (\<lambda>v. []) flat_six JNull (Digraph ''png'') =
     Inr \<lparr>format = ''png'', body = [Node (JStr ''six'') ''six\<newline>1.16.0'']\<rparr>"
    by code_simp
  from t [of "[(''package'', JDict [(''key'', JStr ''six''), (''package_name'', JStr ''six''),
        (''installed_version'', JStr ''1.16.0'')]), (''dependencies'', JList [])]"
      "JDict [(''key'', JStr ''six''), (''package_name'', JStr ''six''),
        (''installed_version'', JStr ''1.16.0'')]"]
  have 5: "dict_get pkg_six ''package'' pkg_six =
     Inr (JDict [(''key'', JStr ''six''), (''package_name'', JStr ''six''),
       (''installed_version'', JStr ''1.16.0'')])"
    by (simp add: pkg_six_def)
  from t [of "[(''key'', JStr ''six''), (''package_name'', JStr ''six''),
      (''installed_version'', JStr ''1.16.0''), (''dependencies'', JList [])]"]
  have 6: "dict_get flat_six ''package'' flat_six = Inr flat_six"
    by (simp add: flat_six_def)
  have 7: "subscript (JDict [(''key'', JStr ''six''), (''package_name'', JStr ''six''),
       (''installed_version'', JStr ''1.16.0'')]) ''package_name'' =
     subscript dep_six ''package_name''"
    by code_simp
  have 8: "subscript (JDict [(''key'', JStr ''six''), (''package_name'', JStr ''six''),
       (''installed_version'', JStr ''1.16.0'')]) ''installed_version'' =
     subscript dep_six ''installed_version''"
    by code_simp
  have 9: "dict_get pkg_six ''dependencies'' (JList []) = dict_get dep_six ''dependencies'' (JList [])"
    by code_simp
  have d: "dict_get dep_six ''package'' dep_six = Inr dep_six" by code_simp
  from t [of _ _ pkg_six "JDict [(''key'', JStr ''six''), (''package_name'', JStr ''six''),
       (''installed_version'', JStr ''1.16.0'')]" dep_six dep_six "\<lambda>v. []"
      "JStr ''python-dateutil''" "Digraph ''png''"] 5 d 7 8 9
  have 10: "add_nodes_edges (\<lambda>v. []) pkg_six (JStr ''python-dateutil'') (Digraph ''png'') =
     add_nodes_edges (\<lambda>v. []) dep_six (JStr ''python-dateutil'') (Digraph ''png'')"
    by blast
  show ?thesis by (intro conjI) (rule 1 2 3 4 5 6 7 8 9 10)+
qed

end
